theory Spec2Isabelle
  imports Main "HOL-Library.Word"
begin

unbundle bit_operations_syntax

section \<open>JavaScript values\<close>

text \<open>
  A JavaScript string is a sequence of UTF-16 code units and a Buffer a sequence of bytes.
  Numbers occur as millisecond timestamps and as the configured time to live: they are
  modelled as mathematical integers (exact for doubles below \<open>2^53\<close>) together with
  \<open>NaN\<close>, which \<open>parseInt\<close> returns on a setting that does not start with digits.
\<close>

type_synonym jsstring = "16 word list"
type_synonym byte = "8 word"

definition js :: "string \<Rightarrow> jsstring" where
  "js s = map of_char s"

datatype jsnum = Num int | NaN

fun js_less :: "jsnum \<Rightarrow> jsnum \<Rightarrow> bool" where
  "js_less (Num a) (Num b) = (a < b)"
| "js_less _ _ = False"

fun js_add :: "jsnum \<Rightarrow> jsnum \<Rightarrow> jsnum" where
  "js_add (Num a) (Num b) = Num (a + b)"
| "js_add _ _ = NaN"

fun js_mult :: "jsnum \<Rightarrow> jsnum \<Rightarrow> jsnum" where
  "js_mult (Num a) (Num b) = Num (a * b)"
| "js_mult _ _ = NaN"

text \<open>
  What \<open>runtime.getSetting\<close> can return: a string, a number or a boolean of the character
  settings, or null when the setting is absent.  \<open>a || b\<close> yields \<open>b\<close> when \<open>a\<close> is falsy.
\<close>

datatype jsvalue = JNull | JBool bool | JNumber jsnum | JString jsstring

fun truthy :: "jsvalue \<Rightarrow> bool" where
  "truthy JNull = False"
| "truthy (JBool b) = b"
| "truthy (JNumber (Num n)) = (n \<noteq> 0)"
| "truthy (JNumber NaN) = False"
| "truthy (JString s) = (s \<noteq> [])"

definition js_or :: "jsvalue \<Rightarrow> jsvalue \<Rightarrow> jsvalue" where
  "js_or a b = (if truthy a then a else b)"

text \<open>
  \<open>parseInt(x, 10)\<close>: the argument is converted to a string, leading white space is
  skipped, an optional sign is read, and the longest prefix of decimal digits is the
  result; without a digit the result is \<open>NaN\<close>.  An integer number converts to its decimal
  digits, so it parses to itself (below \<open>10^21\<close> in absolute value; from there on
  JavaScript writes a number with an exponent, and such settings are outside the model).
\<close>

definition js_whitespace :: "16 word \<Rightarrow> bool" where
  "js_whitespace c \<longleftrightarrow>
     unat c \<in> {0x09, 0x0A, 0x0B, 0x0C, 0x0D, 0x20, 0xA0, 0x1680, 0x2028, 0x2029, 0x202F,
                0x205F, 0x3000, 0xFEFF}
     \<or> (0x2000 \<le> unat c \<and> unat c \<le> 0x200A)"

definition is_digit :: "16 word \<Rightarrow> bool" where
  "is_digit c \<longleftrightarrow> 48 \<le> unat c \<and> unat c \<le> 57"

definition digits_value :: "jsstring \<Rightarrow> nat" where
  "digits_value ds = foldl (\<lambda>acc c. 10 * acc + (unat c - 48)) 0 ds"

definition parseInt_string :: "jsstring \<Rightarrow> jsnum" where
  "parseInt_string s =
    (let t = dropWhile js_whitespace s;
         neg = (case t of [] \<Rightarrow> False | c # _ \<Rightarrow> c = 0x2D);
         r = (case t of [] \<Rightarrow> [] | c # r' \<Rightarrow> if c = 0x2D \<or> c = 0x2B then r' else t);
         ds = takeWhile is_digit r
     in if ds = [] then NaN
        else Num (if neg then - int (digits_value ds) else int (digits_value ds)))"

fun parseInt :: "jsvalue \<Rightarrow> jsnum" where
  "parseInt (JString s) = parseInt_string s"
| "parseInt (JNumber n) = n"
| "parseInt _ = NaN"

section \<open>Encodings: UTF-8 and hexadecimal\<close>

text \<open>
  \<open>Buffer.from(s)\<close> and \<open>cipher.update(s, "utf8", ...)\<close> encode a string in UTF-8: a
  surrogate pair becomes one four-byte sequence and a lone surrogate the three bytes of
  U+FFFD.
\<close>

definition is_high_surrogate :: "16 word \<Rightarrow> bool" where
  "is_high_surrogate c \<longleftrightarrow> 0xD800 \<le> unat c \<and> unat c \<le> 0xDBFF"

definition is_low_surrogate :: "16 word \<Rightarrow> bool" where
  "is_low_surrogate c \<longleftrightarrow> 0xDC00 \<le> unat c \<and> unat c \<le> 0xDFFF"

definition utf8_of_codepoint :: "nat \<Rightarrow> byte list" where
  "utf8_of_codepoint n =
    (if n < 0x80 then [of_nat n]
     else if n < 0x800 then [of_nat (0xC0 + n div 64), of_nat (0x80 + n mod 64)]
     else if n < 0x10000 then
       [of_nat (0xE0 + n div 4096), of_nat (0x80 + n div 64 mod 64), of_nat (0x80 + n mod 64)]
     else
       [of_nat (0xF0 + n div 262144), of_nat (0x80 + n div 4096 mod 64),
        of_nat (0x80 + n div 64 mod 64), of_nat (0x80 + n mod 64)])"

definition replacement_bytes :: "byte list" where
  "replacement_bytes = [0xEF, 0xBF, 0xBD]"

fun utf8_encode :: "jsstring \<Rightarrow> byte list" where
  "utf8_encode [] = []"
| "utf8_encode [c] =
    (if is_high_surrogate c \<or> is_low_surrogate c then replacement_bytes
     else utf8_of_codepoint (unat c))"
| "utf8_encode (c # d # cs) =
    (if is_high_surrogate c \<and> is_low_surrogate d then
       utf8_of_codepoint (0x10000 + (unat c - 0xD800) * 1024 + (unat d - 0xDC00)) @ utf8_encode cs
     else if is_high_surrogate c \<or> is_low_surrogate c then replacement_bytes @ utf8_encode (d # cs)
     else utf8_of_codepoint (unat c) @ utf8_encode (d # cs))"

text \<open>
  Decoding (\<open>decipher.update(..., "utf8")\<close>, \<open>fs.readFileSync(path, "utf8")\<close>) never
  fails: every maximal ill-formed prefix is replaced by U+FFFD and decoding resumes at
  the byte that broke the sequence.
\<close>

definition utf16_of_codepoint :: "nat \<Rightarrow> jsstring" where
  "utf16_of_codepoint n =
    (if n < 0x10000 then [of_nat n]
     else [of_nat (0xD800 + (n - 0x10000) div 1024), of_nat (0xDC00 + (n - 0x10000) mod 1024)])"

definition continuation :: "nat \<Rightarrow> nat \<Rightarrow> byte \<Rightarrow> bool" where
  "continuation lower upper b \<longleftrightarrow> lower \<le> unat b \<and> unat b \<le> upper"

fun utf8_decode :: "byte list \<Rightarrow> jsstring" where
  "utf8_decode [] = []"
| "utf8_decode (b # bs) =
    (let x = unat b in
     if x < 0x80 then of_nat x # utf8_decode bs
     else if 0xC2 \<le> x \<and> x \<le> 0xDF then
       (case bs of
          [] \<Rightarrow> [0xFFFD]
        | b1 # r1 \<Rightarrow>
            if continuation 0x80 0xBF b1
            then utf16_of_codepoint ((x - 0xC0) * 64 + (unat b1 - 0x80)) @ utf8_decode r1
            else 0xFFFD # utf8_decode bs)
     else if 0xE0 \<le> x \<and> x \<le> 0xEF then
       (case bs of
          [] \<Rightarrow> [0xFFFD]
        | b1 # r1 \<Rightarrow>
            if continuation (if x = 0xE0 then 0xA0 else 0x80) (if x = 0xED then 0x9F else 0xBF) b1
            then (case r1 of
                    [] \<Rightarrow> [0xFFFD]
                  | b2 # r2 \<Rightarrow>
                      if continuation 0x80 0xBF b2
                      then utf16_of_codepoint
                             ((x - 0xE0) * 4096 + (unat b1 - 0x80) * 64 + (unat b2 - 0x80))
                           @ utf8_decode r2
                      else 0xFFFD # utf8_decode r1)
            else 0xFFFD # utf8_decode bs)
     else if 0xF0 \<le> x \<and> x \<le> 0xF4 then
       (case bs of
          [] \<Rightarrow> [0xFFFD]
        | b1 # r1 \<Rightarrow>
            if continuation (if x = 0xF0 then 0x90 else 0x80) (if x = 0xF4 then 0x8F else 0xBF) b1
            then (case r1 of
                    [] \<Rightarrow> [0xFFFD]
                  | b2 # r2 \<Rightarrow>
                      if continuation 0x80 0xBF b2
                      then (case r2 of
                              [] \<Rightarrow> [0xFFFD]
                            | b3 # r3 \<Rightarrow>
                                if continuation 0x80 0xBF b3
                                then utf16_of_codepoint
                                       ((x - 0xF0) * 262144 + (unat b1 - 0x80) * 4096
                                        + (unat b2 - 0x80) * 64 + (unat b3 - 0x80))
                                     @ utf8_decode r3
                                else 0xFFFD # utf8_decode r2)
                      else 0xFFFD # utf8_decode r1)
            else 0xFFFD # utf8_decode bs)
     else 0xFFFD # utf8_decode bs)"

text \<open>A string is well formed when every surrogate stands in a high-low pair.\<close>

fun wellformed_utf16 :: "jsstring \<Rightarrow> bool" where
  "wellformed_utf16 [] = True"
| "wellformed_utf16 [c] = (\<not> is_high_surrogate c \<and> \<not> is_low_surrogate c)"
| "wellformed_utf16 (c # d # cs) =
    (if is_high_surrogate c then is_low_surrogate d \<and> wellformed_utf16 cs
     else \<not> is_low_surrogate c \<and> wellformed_utf16 (d # cs))"

definition ascii :: "jsstring \<Rightarrow> bool" where
  "ascii s = list_all (\<lambda>c. unat c < 0x80) s"

text \<open>
  \<open>buf.toString("hex")\<close> writes two lower-case digits per byte.  Decoding a hex string
  reads pairs of digits of either case and stops at the first pair that is not
  hexadecimal; an odd last character is dropped.
\<close>

definition hex_digit :: "nat \<Rightarrow> 16 word" where
  "hex_digit n = of_nat (if n < 10 then 48 + n else 87 + n)"

fun hex_encode :: "byte list \<Rightarrow> jsstring" where
  "hex_encode [] = []"
| "hex_encode (b # bs) = hex_digit (unat b div 16) # hex_digit (unat b mod 16) # hex_encode bs"

definition unhex :: "16 word \<Rightarrow> nat option" where
  "unhex c =
    (let x = unat c in
     if 48 \<le> x \<and> x \<le> 57 then Some (x - 48)
     else if 97 \<le> x \<and> x \<le> 102 then Some (x - 87)
     else if 65 \<le> x \<and> x \<le> 70 then Some (x - 55)
     else None)"

fun hex_decode :: "jsstring \<Rightarrow> byte list" where
  "hex_decode (a # b # cs) =
    (case unhex a of
       None \<Rightarrow> []
     | Some h \<Rightarrow> (case unhex b of None \<Rightarrow> [] | Some l \<Rightarrow> of_nat (16 * h + l) # hex_decode cs))"
| "hex_decode _ = []"

text \<open>\<open>s.split(sep)\<close> for a separator of one code unit; the result is never empty.\<close>

fun split_on :: "'a \<Rightarrow> 'a list \<Rightarrow> 'a list list" where
  "split_on sep [] = [[]]"
| "split_on sep (c # cs) =
    (if c = sep then [] # split_on sep cs
     else (case split_on sep cs of [] \<Rightarrow> [[c]] | p # ps \<Rightarrow> (c # p) # ps))"

text \<open>\<open>s.padEnd(n)\<close> appends spaces until the string has \<open>n\<close> code units.\<close>

definition padEnd :: "nat \<Rightarrow> jsstring \<Rightarrow> jsstring" where
  "padEnd n s = s @ replicate (n - length s) 0x20"

section \<open>The cipher (utils/encryption.ts)\<close>

text \<open>
  Everything that the manager, the cipher or the storage module can throw.  The first six
  are raised by the \<open>crypto\<close> module: a wrong length of the initialization vector or of
  the key at \<open>createCipheriv\<close>/\<open>createDecipheriv\<close>, a missing or odd-length hex argument
  of \<open>update\<close>, and a wrong length or a wrong padding of the cipher text at \<open>final\<close>.
\<close>

datatype error =
    InvalidIV
  | InvalidKeyLength
  | InvalidArgType
  | InvalidArgValue
  | WrongFinalBlockLength
  | BadDecrypt
  | TypeError
  | UnsupportedStorageType jsvalue
  | NoDatabaseAdapter

text \<open>
  The key is padded with spaces to 32 code units, cut to 32 code units and then encoded
  in UTF-8 (\<open>Buffer.from(key.padEnd(32).slice(0, 32))\<close>).
\<close>

definition normalizeKey :: "jsstring \<Rightarrow> byte list" where
  "normalizeKey key = utf8_encode (take 32 (padEnd 32 key))"

text \<open>
  AES-256-CBC with the default padding.  The block transformation of AES is a parameter:
  \<open>E key\<close> and \<open>D key\<close> map a block of 16 bytes to a block of 16 bytes.  The plain text is
  padded to whole blocks (PKCS#7), each block is combined with the previous cipher block
  (the initialization vector for the first) and then transformed.
\<close>

type_synonym block_fn = "byte list \<Rightarrow> byte list \<Rightarrow> byte list"

definition block_cipher :: "block_fn \<Rightarrow> block_fn \<Rightarrow> bool" where
  "block_cipher E D \<longleftrightarrow>
    (\<forall>k b. length k = 32 \<and> length b = 16 \<longrightarrow> length (E k b) = 16 \<and> D k (E k b) = b)"

definition pkcs7_pad :: "byte list \<Rightarrow> byte list" where
  "pkcs7_pad p = (let n = 16 - length p mod 16 in p @ replicate n (of_nat n))"

definition pkcs7_unpad :: "byte list \<Rightarrow> byte list option" where
  "pkcs7_unpad p =
    (if p = [] then None
     else let n = unat (last p) in
       if n = 0 \<or> 16 < n \<or> length p < n then None
       else if list_all (\<lambda>b. b = last p) (drop (length p - n) p)
            then Some (take (length p - n) p)
            else None)"

definition xor_block :: "byte list \<Rightarrow> byte list \<Rightarrow> byte list" where
  "xor_block a b = map (\<lambda>(x, y). x XOR y) (zip a b)"

fun blocks :: "nat \<Rightarrow> byte list \<Rightarrow> byte list list" where
  "blocks 0 p = []"
| "blocks (Suc n) p = take 16 p # blocks n (drop 16 p)"

fun cbc_encrypt_blocks ::
  "(byte list \<Rightarrow> byte list) \<Rightarrow> byte list \<Rightarrow> byte list list \<Rightarrow> byte list list" where
  "cbc_encrypt_blocks enc prev [] = []"
| "cbc_encrypt_blocks enc prev (b # bs) =
    (let c = enc (xor_block b prev) in c # cbc_encrypt_blocks enc c bs)"

fun cbc_decrypt_blocks ::
  "(byte list \<Rightarrow> byte list) \<Rightarrow> byte list \<Rightarrow> byte list list \<Rightarrow> byte list list" where
  "cbc_decrypt_blocks dec prev [] = []"
| "cbc_decrypt_blocks dec prev (c # cs) = xor_block (dec c) prev # cbc_decrypt_blocks dec c cs"

definition aes_256_cbc_encrypt ::
  "block_fn \<Rightarrow> byte list \<Rightarrow> byte list \<Rightarrow> byte list \<Rightarrow> byte list" where
  "aes_256_cbc_encrypt E key iv p =
    (let padded = pkcs7_pad p
     in concat (cbc_encrypt_blocks (E key) iv (blocks (length padded div 16) padded)))"

definition aes_256_cbc_decrypt ::
  "block_fn \<Rightarrow> byte list \<Rightarrow> byte list \<Rightarrow> byte list \<Rightarrow> error + byte list" where
  "aes_256_cbc_decrypt D key iv c =
    (if c = [] \<or> length c mod 16 \<noteq> 0 then Inl WrongFinalBlockLength
     else case pkcs7_unpad (concat (cbc_decrypt_blocks (D key) iv (blocks (length c div 16) c))) of
            None \<Rightarrow> Inl BadDecrypt
          | Some p \<Rightarrow> Inr p)"

text \<open>
  \<open>encryptData(data, key)\<close>.  The 16 bytes of \<open>randomBytes(16)\<close> are the argument \<open>iv\<close>.
  \<open>createCipheriv\<close> checks the length of the initialization vector and then the length of
  the key.  The result is \<open>hex(iv) + ":" + hex(cipher text)\<close>.
\<close>

definition encryptData :: "block_fn \<Rightarrow> jsstring \<Rightarrow> jsstring \<Rightarrow> byte list \<Rightarrow> error + jsstring" where
  "encryptData E data key iv =
    (let normalizedKey = normalizeKey key in
     if length iv \<noteq> 16 then Inl InvalidIV
     else if length normalizedKey \<noteq> 32 then Inl InvalidKeyLength
     else Inr (hex_encode iv @ [0x3A]
               @ hex_encode (aes_256_cbc_encrypt E normalizedKey iv (utf8_encode data))))"

text \<open>
  \<open>decryptData(encryptedData, key)\<close>.  \<open>const [ivHex, encrypted] = encryptedData.split(":")\<close>
  takes the first two parts; \<open>encrypted\<close> is undefined when there is no colon, and
  \<open>update\<close> then throws, after \<open>createDecipheriv\<close> has checked the vector and the key.
\<close>

definition decryptData :: "block_fn \<Rightarrow> jsstring \<Rightarrow> jsstring \<Rightarrow> error + jsstring" where
  "decryptData D encryptedData key =
    (let normalizedKey = normalizeKey key in
     case split_on 0x3A encryptedData of
       [] \<Rightarrow> Inl InvalidArgType
     | ivHex # rest \<Rightarrow>
         (let iv = hex_decode ivHex in
          if length iv \<noteq> 16 then Inl InvalidIV
          else if length normalizedKey \<noteq> 32 then Inl InvalidKeyLength
          else case rest of
            [] \<Rightarrow> Inl InvalidArgType
          | encrypted # _ \<Rightarrow>
              if odd (length encrypted) then Inl InvalidArgValue
              else (case aes_256_cbc_decrypt D normalizedKey iv (hex_decode encrypted) of
                      Inl e \<Rightarrow> Inl e
                    | Inr p \<Rightarrow> Inr (utf8_decode p))))"

text \<open>\<open>decryptData(await encryptData(data, key), key)\<close>.\<close>

definition decrypt_after_encrypt ::
  "block_fn \<Rightarrow> block_fn \<Rightarrow> jsstring \<Rightarrow> jsstring \<Rightarrow> byte list \<Rightarrow> error + jsstring" where
  "decrypt_after_encrypt E D data key iv =
    (case encryptData E data key iv of Inl e \<Rightarrow> Inl e | Inr envelope \<Rightarrow> decryptData D envelope key)"

section \<open>The authentication record and the state of the system\<close>

record AuthState =
  walletPublicKey :: jsstring
  signature :: jsstring
  timestamp :: jsnum
  expiresAt :: jsnum
  refreshToken :: "jsstring option"
  permissions :: "jsstring list"
  network :: jsstring

text \<open>
  The runtime of the agent: its settings and whether it carries a database adapter.
\<close>

record runtime =
  getSetting :: "jsstring \<Rightarrow> jsvalue"
  databaseAdapter :: bool

text \<open>Every line the code writes with \<open>console.log\<close> or \<open>console.error\<close>.\<close>

datatype log_entry =
    LogInitializing
  | LogSaved jsstring
  | LogUsingCached jsstring
  | LogNoneFound jsstring
  | LogLoadedValid jsstring
  | LogAttemptRefresh jsstring
  | LogRefreshed jsstring
  | LogRefreshError error
  | LogExpired jsstring
  | LogParseError
  | LogCleared jsstring

text \<open>
  The state: the two fields of the manager (\<open>this.runtime\<close>, undefined before
  \<open>initialize\<close>, and \<open>this.authCache\<close>), the files below \<open>data/auth\<close> with their bytes,
  the rows of the table \<open>auth_state\<close> behind the database adapter, and the console.
  Failures of the file system and of the database themselves are not modelled, and a
  session key is taken as a plain file name (\<open>path.join\<close> does not rewrite it).
\<close>

record state =
  runtime :: "runtime option"
  authCache :: "jsstring \<rightharpoonup> AuthState"
  storageDirExists :: bool
  files :: "jsstring \<rightharpoonup> byte list"
  auth_state :: "jsstring \<rightharpoonup> jsstring"
  console :: "log_entry list"

definition console_log :: "log_entry \<Rightarrow> state \<Rightarrow> state" where
  "console_log e s = s\<lparr>console := console s @ [e]\<rparr>"

text \<open>
  The library functions the manager calls: the block transformation of AES in both
  directions, \<open>JSON.stringify\<close> on a record, and \<open>JSON.parse\<close> followed by the cast to
  \<open>AuthState\<close>.  \<open>JSON_parse\<close> is \<open>None\<close> when \<open>JSON.parse\<close> throws or yields \<open>null\<close> (the
  first use of the value then throws inside the same \<open>try\<close>); a payload that parses is
  taken to have the shape of the interface.
\<close>

record platform =
  aes_encrypt_block :: block_fn
  aes_decrypt_block :: block_fn
  JSON_stringify :: "AuthState \<Rightarrow> jsstring"
  JSON_parse :: "jsstring \<Rightarrow> AuthState option"

section \<open>Storage (utils/storage.ts)\<close>

text \<open>
  The file of a key is \<open>data/auth/<key>.auth\<close> below the working directory.
  \<open>storeInFile\<close> creates the directory when it is missing, then deletes the file when the
  data is null and writes it otherwise; \<open>retrieveFromFile\<close> returns null when the file
  does not exist.  Text is written and read in UTF-8.
\<close>

definition filePath :: "jsstring \<Rightarrow> jsstring" where
  "filePath key = js ''data/auth/'' @ key @ js ''.auth''"

definition storeInFile :: "jsstring \<Rightarrow> jsstring option \<Rightarrow> state \<Rightarrow> state" where
  "storeInFile key data s =
    (let s1 = s\<lparr>storageDirExists := True\<rparr> in
     case data of
       None \<Rightarrow> s1\<lparr>files := (files s1)(filePath key := None)\<rparr>
     | Some d \<Rightarrow> s1\<lparr>files := (files s1)(filePath key \<mapsto> utf8_encode d)\<rparr>)"

definition retrieveFromFile :: "jsstring \<Rightarrow> state \<Rightarrow> jsstring option" where
  "retrieveFromFile key s =
    (case files s (filePath key) of None \<Rightarrow> None | Some bytes \<Rightarrow> Some (utf8_decode bytes))"

text \<open>
  The database functions throw when the runtime has no adapter; otherwise they delete,
  upsert or look up the row of the key in the table \<open>auth_state\<close>.
\<close>

definition storeInDatabase ::
  "jsstring \<Rightarrow> jsstring option \<Rightarrow> runtime \<Rightarrow> state \<Rightarrow> (error + unit) \<times> state" where
  "storeInDatabase key data rt s =
    (if \<not> databaseAdapter rt then (Inl NoDatabaseAdapter, s)
     else case data of
       None \<Rightarrow> (Inr (), s\<lparr>auth_state := (auth_state s)(key := None)\<rparr>)
     | Some d \<Rightarrow> (Inr (), s\<lparr>auth_state := (auth_state s)(key \<mapsto> d)\<rparr>))"

definition retrieveFromDatabase :: "jsstring \<Rightarrow> runtime \<Rightarrow> state \<Rightarrow> error + jsstring option" where
  "retrieveFromDatabase key rt s =
    (if \<not> databaseAdapter rt then Inl NoDatabaseAdapter else Inr (auth_state s key))"

text \<open>
  \<open>storeData\<close> and \<open>retrieveData\<close> switch on the storage type at every call: the memory
  type stores nothing and retrieves null, any other value than the three names throws.
\<close>

definition storeData ::
  "jsstring \<Rightarrow> jsstring option \<Rightarrow> jsvalue \<Rightarrow> runtime \<Rightarrow> state \<Rightarrow> (error + unit) \<times> state" where
  "storeData key data storageType rt s =
    (if storageType = JString (js ''encrypted-file'') then (Inr (), storeInFile key data s)
     else if storageType = JString (js ''database'') then storeInDatabase key data rt s
     else if storageType = JString (js ''memory'') then (Inr (), s)
     else (Inl (UnsupportedStorageType storageType), s))"

definition retrieveData :: "jsstring \<Rightarrow> jsvalue \<Rightarrow> runtime \<Rightarrow> state \<Rightarrow> error + jsstring option" where
  "retrieveData key storageType rt s =
    (if storageType = JString (js ''encrypted-file'') then Inr (retrieveFromFile key s)
     else if storageType = JString (js ''database'') then retrieveFromDatabase key rt s
     else if storageType = JString (js ''memory'') then Inr None
     else Inl (UnsupportedStorageType storageType))"

section \<open>The manager (services/authStateManager.ts)\<close>

text \<open>
  Each method takes the state and returns its result with the state it leaves, also when
  it throws (\<open>Inl\<close>).  \<open>now\<close> is the reading of \<open>Date.now()\<close> during the call (the code
  reads the clock several times in one call; the readings are taken to be equal) and
  \<open>iv\<close> the bytes that \<open>randomBytes(16)\<close> returns if the call encrypts.  The cache, a
  plain object indexed by the session key, is a map (a session key that names a property
  of \<open>Object.prototype\<close>, such as \<open>__proto__\<close>, is outside the model).
\<close>

definition new_AuthStateManager :: "state \<Rightarrow> state" where
  "new_AuthStateManager s = s\<lparr>runtime := None, authCache := Map.empty\<rparr>"

definition initialize :: "runtime \<Rightarrow> state \<Rightarrow> (error + unit) \<times> state" where
  "initialize rt s = (Inr (), console_log LogInitializing (s\<lparr>runtime := Some rt\<rparr>))"

definition isValid :: "int \<Rightarrow> AuthState \<Rightarrow> bool" where
  "isValid now authState = js_less (Num now) (expiresAt authState)"

text \<open>
  The two settings with a default: \<open>getSetting("ENCRYPTION_KEY") || "default-key"\<close> and
  \<open>getSetting("authStateStorageType") || "encrypted-file"\<close>.
\<close>

definition encryptionKey :: "runtime \<Rightarrow> jsvalue" where
  "encryptionKey rt = js_or (getSetting rt (js ''ENCRYPTION_KEY'')) (JString (js ''default-key''))"

definition storageType :: "runtime \<Rightarrow> jsvalue" where
  "storageType rt =
     js_or (getSetting rt (js ''authStateStorageType'')) (JString (js ''encrypted-file''))"

text \<open>A setting that is not a string has no \<open>padEnd\<close>: the cipher throws a TypeError.\<close>

definition encryptWith :: "platform \<Rightarrow> jsstring \<Rightarrow> jsvalue \<Rightarrow> byte list \<Rightarrow> error + jsstring" where
  "encryptWith pf data key iv =
    (case key of JString k \<Rightarrow> encryptData (aes_encrypt_block pf) data k iv | _ \<Rightarrow> Inl TypeError)"

definition decryptWith :: "platform \<Rightarrow> jsstring \<Rightarrow> jsvalue \<Rightarrow> error + jsstring" where
  "decryptWith pf encryptedData key =
    (case key of JString k \<Rightarrow> decryptData (aes_decrypt_block pf) encryptedData k | _ \<Rightarrow> Inl TypeError)"

text \<open>
  \<open>saveAuthState\<close> first writes the cache entry, then encrypts the serialised record,
  then stores the envelope, then logs.  An error of the cipher or of the storage module
  leaves the method after the cache has been written.
\<close>

definition saveAuthState ::
  "platform \<Rightarrow> byte list \<Rightarrow> jsstring \<Rightarrow> AuthState \<Rightarrow> state \<Rightarrow> (error + unit) \<times> state" where
  "saveAuthState pf iv serviceKey authState s =
    (let s1 = s\<lparr>authCache := (authCache s)(serviceKey \<mapsto> authState)\<rparr> in
     case runtime s1 of
       None \<Rightarrow> (Inl TypeError, s1)
     | Some rt \<Rightarrow>
         (case encryptWith pf (JSON_stringify pf authState) (encryptionKey rt) iv of
            Inl e \<Rightarrow> (Inl e, s1)
          | Inr encryptedState \<Rightarrow>
              (case storeData serviceKey (Some encryptedState) (storageType rt) rt s1 of
                 (Inl e, s2) \<Rightarrow> (Inl e, s2)
               | (Inr _, s2) \<Rightarrow> (Inr (), console_log (LogSaved serviceKey) s2))))"

text \<open>
  \<open>refreshAuthState\<close> copies the record with \<open>timestamp = Date.now()\<close> and
  \<open>expiresAt = Date.now() + parseInt(getSetting("authStateTTL") || "86400", 10) * 1000\<close>,
  saves the copy and returns it.  Its whole body is in a \<open>try\<close>: on any error it logs
  the error and returns null.
\<close>

definition refreshedState :: "runtime \<Rightarrow> int \<Rightarrow> AuthState \<Rightarrow> AuthState" where
  "refreshedState rt now authState =
    (let ttl = js_mult (parseInt (js_or (getSetting rt (js ''authStateTTL'')) (JString (js ''86400''))))
                       (Num 1000)
     in authState\<lparr>timestamp := Num now, expiresAt := js_add (Num now) ttl\<rparr>)"

definition refreshAuthState ::
  "platform \<Rightarrow> int \<Rightarrow> byte list \<Rightarrow> jsstring \<Rightarrow> AuthState \<Rightarrow> state \<Rightarrow> AuthState option \<times> state" where
  "refreshAuthState pf now iv serviceKey authState s =
    (case runtime s of
       None \<Rightarrow> (None, console_log (LogRefreshError TypeError) s)
     | Some rt \<Rightarrow>
         (case saveAuthState pf iv serviceKey (refreshedState rt now authState) s of
            (Inl e, s1) \<Rightarrow> (None, console_log (LogRefreshError e) s1)
          | (Inr _, s1) \<Rightarrow>
              (Some (refreshedState rt now authState), console_log (LogRefreshed serviceKey) s1)))"

text \<open>
  \<open>loadAuthState\<close> returns a cached record that is valid.  Otherwise it retrieves the
  blob (null or an empty string ends the call with null) and decrypts it; both calls stand
  before the \<open>try\<close>, so their errors leave the method.  Inside the \<open>try\<close> the payload is
  parsed; a valid record is cached and returned; an expired record with a refresh token
  (a non-empty string) is refreshed when \<open>getSetting("autoRefresh") === true\<close>; in every
  other case, and when parsing throws, the result is null.
\<close>

definition cachedValid :: "int \<Rightarrow> jsstring \<Rightarrow> state \<Rightarrow> AuthState option" where
  "cachedValid now serviceKey s =
    (case authCache s serviceKey of
       None \<Rightarrow> None
     | Some cachedState \<Rightarrow> if isValid now cachedState then Some cachedState else None)"

definition hasRefreshToken :: "AuthState \<Rightarrow> bool" where
  "hasRefreshToken authState =
    (case refreshToken authState of None \<Rightarrow> False | Some t \<Rightarrow> t \<noteq> [])"

definition loadAuthState ::
  "platform \<Rightarrow> int \<Rightarrow> byte list \<Rightarrow> jsstring \<Rightarrow> state \<Rightarrow> (error + AuthState option) \<times> state" where
  "loadAuthState pf now iv serviceKey s =
    (case cachedValid now serviceKey s of
       Some cachedState \<Rightarrow> (Inr (Some cachedState), console_log (LogUsingCached serviceKey) s)
     | None \<Rightarrow>
       (case runtime s of
          None \<Rightarrow> (Inl TypeError, s)
        | Some rt \<Rightarrow>
          (case retrieveData serviceKey (storageType rt) rt s of
             Inl e \<Rightarrow> (Inl e, s)
           | Inr None \<Rightarrow> (Inr None, console_log (LogNoneFound serviceKey) s)
           | Inr (Some encryptedState) \<Rightarrow>
               if encryptedState = [] then (Inr None, console_log (LogNoneFound serviceKey) s)
               else
                 (case decryptWith pf encryptedState (encryptionKey rt) of
                    Inl e \<Rightarrow> (Inl e, s)
                  | Inr decryptedState \<Rightarrow>
                      (case JSON_parse pf decryptedState of
                         None \<Rightarrow> (Inr None, console_log LogParseError s)
                       | Some authState \<Rightarrow>
                           if isValid now authState then
                             (Inr (Some authState),
                              console_log (LogLoadedValid serviceKey)
                                (s\<lparr>authCache := (authCache s)(serviceKey \<mapsto> authState)\<rparr>))
                           else if hasRefreshToken authState
                                   \<and> getSetting rt (js ''autoRefresh'') = JBool True then
                             (case refreshAuthState pf now iv serviceKey authState
                                     (console_log (LogAttemptRefresh serviceKey) s) of
                                (Some refreshed, s1) \<Rightarrow> (Inr (Some refreshed), s1)
                              | (None, s1) \<Rightarrow> (Inr None, console_log (LogExpired serviceKey) s1))
                           else (Inr None, console_log (LogExpired serviceKey) s))))))"

text \<open>\<open>clearAuthState\<close> deletes the cache entry and stores null under the key.\<close>

definition clearAuthState :: "jsstring \<Rightarrow> state \<Rightarrow> (error + unit) \<times> state" where
  "clearAuthState serviceKey s =
    (let s1 = s\<lparr>authCache := (authCache s)(serviceKey := None)\<rparr> in
     case runtime s1 of
       None \<Rightarrow> (Inl TypeError, s1)
     | Some rt \<Rightarrow>
         (case storeData serviceKey None (storageType rt) rt s1 of
            (Inl e, s2) \<Rightarrow> (Inl e, s2)
          | (Inr _, s2) \<Rightarrow> (Inr (), console_log (LogCleared serviceKey) s2)))"

section \<open>Reference notions and a concrete instance\<close>

text \<open>
  A backend keeps what is stored when it is the file backend, or the database backend of
  a runtime that carries an adapter.
\<close>

definition persistent :: "jsvalue \<Rightarrow> runtime \<Rightarrow> bool" where
  "persistent t rt \<longleftrightarrow>
     t = JString (js ''encrypted-file'') \<or> (t = JString (js ''database'') \<and> databaseAdapter rt)"

text \<open>
  A session key is a plain file name when \<open><key>.auth\<close> names a file directly in
  \<open>data/auth\<close>: the key has no path separator (slash or backslash) and no NUL, and the
  name has at most 255 bytes.  For such a key \<open>path.join\<close> leaves the name as it is and
  \<open>fs.writeFileSync\<close> finds the directory that \<open>storeInFile\<close> has created.  For any
  other key the code may write another file than \<open>filePath\<close> says, or throw (the key
  \<open>a/b\<close> needs a directory \<open>data/auth/a\<close> that nothing creates): what \<open>storeInFile\<close> and
  \<open>retrieveFromFile\<close> say about the file backend is meant for plain file names only.
\<close>

definition plain_file_name :: "jsstring \<Rightarrow> bool" where
  "plain_file_name key \<longleftrightarrow>
     list_all (\<lambda>c. c \<noteq> 0x2F \<and> c \<noteq> 0x5C \<and> c \<noteq> 0) key
     \<and> length (utf8_encode (key @ js ''.auth'')) \<le> 255"

text \<open>
  A concrete platform, runtime and record on which the theorems below are run.  The block
  transformation adds the first 16 key bytes to the block; the serialisation knows the
  one record of the example.  The runtime leaves \<open>ENCRYPTION_KEY\<close> and \<open>authStateTTL\<close>
  unset, so the defaults of the code apply.
\<close>

definition xor_cipher :: block_fn where
  "xor_cipher k b = xor_block b (take 16 k)"

definition example_record :: AuthState where
  "example_record =
    \<lparr>walletPublicKey = js ''5Zzguz4NsSRFxGkHfM4FmsFpGZiCDtY72dQRfKGrNMcH'',
     signature = js ''3c1e9550e66958296d11b60f'',
     timestamp = Num 0, expiresAt = Num 1000, refreshToken = Some (js ''refresh-token''),
     permissions = [js ''transfer'', js ''sign''], network = js ''devnet''\<rparr>"

definition example_stringify :: "AuthState \<Rightarrow> jsstring" where
  "example_stringify R = (if R = example_record then js ''{session:1}'' else js ''{}'')"

definition example_parse :: "jsstring \<Rightarrow> AuthState option" where
  "example_parse t = (if t = js ''{session:1}'' then Some example_record else None)"

definition example_platform :: platform where
  "example_platform =
    \<lparr>aes_encrypt_block = xor_cipher, aes_decrypt_block = xor_cipher,
     JSON_stringify = example_stringify, JSON_parse = example_parse\<rparr>"

definition example_iv :: "byte list" where
  "example_iv = replicate 16 7"

definition example_key :: jsstring where
  "example_key = js ''solana-auth''"

definition example_runtime :: "jsvalue \<Rightarrow> jsvalue \<Rightarrow> bool \<Rightarrow> runtime" where
  "example_runtime storage autoRefresh adapter =
    \<lparr>getSetting = (\<lambda>name. if name = js ''authStateStorageType'' then storage
                         else if name = js ''autoRefresh'' then autoRefresh
                         else JNull),
     databaseAdapter = adapter\<rparr>"

definition empty_world :: state where
  "empty_world =
    \<lparr>runtime = None, authCache = Map.empty, storageDirExists = False, files = Map.empty,
     auth_state = Map.empty, console = []\<rparr>"

text \<open>The state after \<open>initialize\<close>, and after a following \<open>saveAuthState\<close> of the record.\<close>

definition example_initialized :: "jsvalue \<Rightarrow> jsvalue \<Rightarrow> bool \<Rightarrow> state" where
  "example_initialized storage autoRefresh adapter =
     snd (initialize (example_runtime storage autoRefresh adapter) empty_world)"

definition example_saved :: "jsvalue \<Rightarrow> jsvalue \<Rightarrow> bool \<Rightarrow> state" where
  "example_saved storage autoRefresh adapter =
     snd (saveAuthState example_platform example_iv example_key example_record
            (example_initialized storage autoRefresh adapter))"

text \<open>A state whose file for the session key holds text that is no envelope.\<close>

definition example_corrupt :: state where
  "example_corrupt =
    (example_initialized JNull JNull False)
      \<lparr>files := [filePath example_key \<mapsto> utf8_encode (js ''zz'')]\<rparr>"

section \<open>Properties of the encodings\<close>

lemma unat_byte: "k < 256 \<Longrightarrow> unat (of_nat k :: 8 word) = k"
  by (simp add: unat_of_nat)

lemma decode_1byte:
  "n < 0x80 \<Longrightarrow> utf8_decode (utf8_of_codepoint n @ bs) = of_nat n # utf8_decode bs"
  by (simp add: utf8_of_codepoint_def unat_byte)

lemma split3: "(n::nat) = 4096 * (n div 4096) + 64 * (n div 64 mod 64) + n mod 64"
proof -
  have a: "n div 4096 = n div 64 div 64" by (simp add: div_mult2_eq[symmetric])
  have "n div 64 = 64 * (n div 64 div 64) + n div 64 mod 64" by simp
  then have "64 * (n div 64) = 4096 * (n div 64 div 64) + 64 * (n div 64 mod 64)" by linarith
  moreover have "n = 64 * (n div 64) + n mod 64" by simp
  ultimately show ?thesis unfolding a by linarith
qed

lemma split4:
  "(n::nat) = 262144 * (n div 262144) + 4096 * (n div 4096 mod 64) + 64 * (n div 64 mod 64) + n mod 64"
proof -
  have a: "n div 262144 = n div 4096 div 64" by (simp add: div_mult2_eq[symmetric])
  have "n div 4096 = 64 * (n div 4096 div 64) + n div 4096 mod 64" by simp
  then have "4096 * (n div 4096) = 262144 * (n div 4096 div 64) + 4096 * (n div 4096 mod 64)"
    by linarith
  then show ?thesis unfolding a using split3[of n] by linarith
qed

lemma bounds2:
  assumes "(n::nat) = 64 * a + r" "r < 64" "128 \<le> n" "n < 2048"
  shows "2 \<le> a" "a \<le> 31"
  using assms by linarith+

lemma bounds3:
  assumes "(n::nat) = 4096 * a + 64 * m + r" "m < 64" "r < 64" "2048 \<le> n" "n < 65536"
    "\<not> (55296 \<le> n \<and> n \<le> 57343)"
  shows "a \<le> 15" "a = 0 \<Longrightarrow> 32 \<le> m" "a = 13 \<Longrightarrow> m < 32"
  using assms by linarith+

lemma bounds4:
  assumes "(n::nat) = 262144 * a + 4096 * m + 64 * k + r" "m < 64" "k < 64" "r < 64"
    "65536 \<le> n" "n < 1114112"
  shows "a \<le> 4" "a = 0 \<Longrightarrow> 16 \<le> m" "a = 4 \<Longrightarrow> m < 16"
  using assms by linarith+

lemma decode_lead2:
  assumes "unat b0 = x" "0xC2 \<le> x" "x \<le> 0xDF" "unat b1 = y" "0x80 \<le> y" "y \<le> 0xBF"
  shows "utf8_decode (b0 # b1 # bs) = utf16_of_codepoint ((x - 0xC0) * 64 + (y - 0x80)) @ utf8_decode bs"
  using assms by (simp add: continuation_def)

lemma decode_lead3:
  assumes "unat b0 = x" "0xE0 \<le> x" "x \<le> 0xEF" "unat b1 = y"
    "(if x = 0xE0 then 0xA0 else 0x80) \<le> y" "y \<le> (if x = 0xED then 0x9F else 0xBF)"
    "unat b2 = z" "0x80 \<le> z" "z \<le> 0xBF"
  shows "utf8_decode (b0 # b1 # b2 # bs) =
    utf16_of_codepoint ((x - 0xE0) * 4096 + (y - 0x80) * 64 + (z - 0x80)) @ utf8_decode bs"
  using assms by (simp add: continuation_def)

lemma decode_lead4:
  assumes "unat b0 = x" "0xF0 \<le> x" "x \<le> 0xF4" "unat b1 = y"
    "(if x = 0xF0 then 0x90 else 0x80) \<le> y" "y \<le> (if x = 0xF4 then 0x8F else 0xBF)"
    "unat b2 = z" "0x80 \<le> z" "z \<le> 0xBF" "unat b3 = u" "0x80 \<le> u" "u \<le> 0xBF"
  shows "utf8_decode (b0 # b1 # b2 # b3 # bs) =
    utf16_of_codepoint ((x - 0xF0) * 262144 + (y - 0x80) * 4096 + (z - 0x80) * 64 + (u - 0x80))
    @ utf8_decode bs"
  using assms by (simp add: continuation_def)

lemma decode_2byte:
  assumes "0x80 \<le> n" "n < 0x800"
  shows "utf8_decode (utf8_of_codepoint n @ bs) = of_nat n # utf8_decode bs"
proof -
  define a where "a = n div 64"
  define r where "r = n mod 64"
  have n: "n = 64 * a + r" and r: "r < 64" unfolding a_def r_def by simp_all
  note b = bounds2[OF n r assms]
  have enc: "utf8_of_codepoint n = [of_nat (0xC0 + a), of_nat (0x80 + r)]"
    using assms by (simp add: utf8_of_codepoint_def a_def r_def)
  have ux: "unat (of_nat (0xC0 + a) :: byte) = 0xC0 + a" using b by (intro unat_byte) simp
  have ur: "unat (of_nat (0x80 + r) :: byte) = 0x80 + r" using r by (intro unat_byte) simp
  have "utf8_decode (of_nat (0xC0 + a) # of_nat (0x80 + r) # bs)
        = utf16_of_codepoint ((0xC0 + a - 0xC0) * 64 + (0x80 + r - 0x80)) @ utf8_decode bs"
    using b r by (intro decode_lead2[OF ux _ _ ur]) simp_all
  also have "(0xC0 + a - 0xC0) * 64 + (0x80 + r - 0x80) = n" using n by simp
  finally show ?thesis using assms by (simp add: enc utf16_of_codepoint_def)
qed

lemma decode_3byte:
  assumes "0x800 \<le> n" "n < 0x10000" "\<not> (0xD800 \<le> n \<and> n \<le> 0xDFFF)"
  shows "utf8_decode (utf8_of_codepoint n @ bs) = of_nat n # utf8_decode bs"
proof -
  define a where "a = n div 4096"
  define m where "m = n div 64 mod 64"
  define r where "r = n mod 64"
  have n: "n = 4096 * a + 64 * m + r" unfolding a_def m_def r_def by (rule split3)
  have m: "m < 64" and r: "r < 64" unfolding m_def r_def by simp_all
  note b = bounds3[OF n m r assms]
  have enc: "utf8_of_codepoint n = [of_nat (0xE0 + a), of_nat (0x80 + m), of_nat (0x80 + r)]"
    using assms by (simp add: utf8_of_codepoint_def a_def m_def r_def)
  have ua: "unat (of_nat (0xE0 + a) :: byte) = 0xE0 + a" using b(1) by (intro unat_byte) simp
  have um: "unat (of_nat (0x80 + m) :: byte) = 0x80 + m" using m by (intro unat_byte) simp
  have ur: "unat (of_nat (0x80 + r) :: byte) = 0x80 + r" using r by (intro unat_byte) simp
  have "utf8_decode (of_nat (0xE0 + a) # of_nat (0x80 + m) # of_nat (0x80 + r) # bs)
        = utf16_of_codepoint ((0xE0 + a - 0xE0) * 4096 + (0x80 + m - 0x80) * 64 + (0x80 + r - 0x80))
          @ utf8_decode bs"
    using b m r by (intro decode_lead3[OF ua _ _ um _ _ ur]) auto
  also have "(0xE0 + a - 0xE0) * 4096 + (0x80 + m - 0x80) * 64 + (0x80 + r - 0x80) = n"
    using n by simp
  finally show ?thesis using assms by (simp add: enc utf16_of_codepoint_def)
qed

lemma decode_4byte:
  assumes "0x10000 \<le> n" "n < 0x110000"
  shows "utf8_decode (utf8_of_codepoint n @ bs) = utf16_of_codepoint n @ utf8_decode bs"
proof -
  define a where "a = n div 262144"
  define m where "m = n div 4096 mod 64"
  define k where "k = n div 64 mod 64"
  define r where "r = n mod 64"
  have n: "n = 262144 * a + 4096 * m + 64 * k + r" unfolding a_def m_def k_def r_def by (rule split4)
  have m: "m < 64" and k: "k < 64" and r: "r < 64" unfolding m_def k_def r_def by simp_all
  note b = bounds4[OF n m k r assms]
  have enc: "utf8_of_codepoint n =
      [of_nat (0xF0 + a), of_nat (0x80 + m), of_nat (0x80 + k), of_nat (0x80 + r)]"
    using assms by (simp add: utf8_of_codepoint_def a_def m_def k_def r_def)
  have ua: "unat (of_nat (0xF0 + a) :: byte) = 0xF0 + a" using b(1) by (intro unat_byte) simp
  have um: "unat (of_nat (0x80 + m) :: byte) = 0x80 + m" using m by (intro unat_byte) simp
  have uk: "unat (of_nat (0x80 + k) :: byte) = 0x80 + k" using k by (intro unat_byte) simp
  have ur: "unat (of_nat (0x80 + r) :: byte) = 0x80 + r" using r by (intro unat_byte) simp
  have "utf8_decode (of_nat (0xF0 + a) # of_nat (0x80 + m) # of_nat (0x80 + k) # of_nat (0x80 + r) # bs)
        = utf16_of_codepoint ((0xF0 + a - 0xF0) * 262144 + (0x80 + m - 0x80) * 4096
            + (0x80 + k - 0x80) * 64 + (0x80 + r - 0x80)) @ utf8_decode bs"
    using b m k r by (intro decode_lead4[OF ua _ _ um _ _ uk _ _ ur]) auto
  also have "(0xF0 + a - 0xF0) * 262144 + (0x80 + m - 0x80) * 4096
            + (0x80 + k - 0x80) * 64 + (0x80 + r - 0x80) = n"
    using n by simp
  finally show ?thesis by (simp add: enc)
qed

lemma unat_unit: "unat (c :: 16 word) < 65536"
  using unsigned_less[of c] by simp

lemma decode_unit:
  assumes "\<not> is_high_surrogate c" "\<not> is_low_surrogate c"
  shows "utf8_decode (utf8_of_codepoint (unat c) @ bs) = c # utf8_decode bs"
proof -
  have ns: "\<not> (0xD800 \<le> unat c \<and> unat c \<le> 0xDFFF)"
    using assms unfolding is_high_surrogate_def is_low_surrogate_def by linarith
  consider "unat c < 0x80" | "0x80 \<le> unat c" "unat c < 0x800" | "0x800 \<le> unat c"
    by linarith
  then have "utf8_decode (utf8_of_codepoint (unat c) @ bs) = of_nat (unat c) # utf8_decode bs"
  proof cases
    case 1 then show ?thesis by (rule decode_1byte)
  next
    case 2 then show ?thesis by (rule decode_2byte)
  next
    case 3 then show ?thesis using unat_unit[of c] ns by (intro decode_3byte) simp_all
  qed
  then show ?thesis by simp
qed

lemma decode_pair:
  assumes "is_high_surrogate c" "is_low_surrogate d"
  shows "utf8_decode (utf8_of_codepoint (0x10000 + (unat c - 0xD800) * 1024 + (unat d - 0xDC00)) @ bs)
         = c # d # utf8_decode bs"
proof -
  define h where "h = unat c - 0xD800"
  define l where "l = unat d - 0xDC00"
  have h: "h < 1024" "unat c = 0xD800 + h" and l: "l < 1024" "unat d = 0xDC00 + l"
    using assms unfolding is_high_surrogate_def is_low_surrogate_def h_def l_def by linarith+
  define n where "n = 0x10000 + h * 1024 + l"
  have r: "0x10000 \<le> n" "n < 0x110000" using h l unfolding n_def by simp_all
  have "(n - 0x10000) div 1024 = h" "(n - 0x10000) mod 1024 = l"
    using h l unfolding n_def by simp_all
  then have "utf16_of_codepoint n = [of_nat (unat c), of_nat (unat d)]"
    using r h l by (simp add: utf16_of_codepoint_def)
  then have "utf16_of_codepoint n = [c, d]" by simp
  then show ?thesis using decode_4byte[OF r, of bs] unfolding n_def h_def l_def by simp
qed

lemma utf8_roundtrip: "wellformed_utf16 s \<Longrightarrow> utf8_decode (utf8_encode s) = s"
proof (induction s rule: utf8_encode.induct)
  case 1
  then show ?case by simp
next
  case (2 c)
  then show ?case using decode_unit[of c "[]"] by simp
next
  case (3 c d cs)
  show ?case
  proof (cases "is_high_surrogate c")
    case True
    with 3 show ?thesis by (simp add: decode_pair)
  next
    case False
    with 3 show ?thesis by (simp add: decode_unit)
  qed
qed

lemma unat_hex_digit: "n < 16 \<Longrightarrow> unat (hex_digit n) = (if n < 10 then 48 + n else 87 + n)"
  by (simp add: hex_digit_def unat_of_nat)

lemma unhex_hex_digit: "n < 16 \<Longrightarrow> unhex (hex_digit n) = Some n"
  by (simp add: unhex_def unat_hex_digit)

lemma byte_nibbles: "of_nat (16 * (unat b div 16) + unat b mod 16) = (b :: byte)"
  by simp

lemma unat_byte_less: "unat (b :: byte) < 256"
  using unsigned_less[of b] by simp

lemma hex_roundtrip: "hex_decode (hex_encode bs) = bs"
proof (induction bs)
  case Nil
  then show ?case by simp
next
  case (Cons b bs)
  have "unat b div 16 < 16" using unat_byte_less[of b] by simp
  moreover have "unat b mod 16 < 16" by simp
  ultimately show ?case using Cons byte_nibbles[of b] by (simp add: unhex_hex_digit del: of_nat_add of_nat_mult)
qed

lemma hex_digit_not_colon: "n < 16 \<Longrightarrow> hex_digit n \<noteq> 0x3A"
proof
  assume "n < 16" "hex_digit n = 0x3A"
  then have "unat (hex_digit n) = 58" by simp
  with \<open>n < 16\<close> show False by (simp add: unat_hex_digit split: if_splits)
qed

lemma colon_notin_hex: "0x3A \<notin> set (hex_encode bs)"
proof (induction bs)
  case Nil
  then show ?case by simp
next
  case (Cons b bs)
  have "unat b div 16 < 16" using unat_byte_less[of b] by simp
  moreover have "unat b mod 16 < 16" by simp
  ultimately show ?case using Cons hex_digit_not_colon by fastforce
qed

lemma length_hex_encode: "length (hex_encode bs) = 2 * length bs"
  by (induction bs) simp_all

lemma split_on_none: "sep \<notin> set a \<Longrightarrow> split_on sep a = [a]"
  by (induction a) auto

lemma split_on_first: "sep \<notin> set a \<Longrightarrow> split_on sep (a @ sep # b) = a # split_on sep b"
  by (induction a) auto

section \<open>Properties of the cipher\<close>

lemma xor_block_cancel: "length a = length b \<Longrightarrow> xor_block (xor_block a b) b = a"
proof (induction a b rule: list_induct2)
  case Nil
  then show ?case by (simp add: xor_block_def)
next
  case (Cons x xs y ys)
  then show ?case by (simp add: xor_block_def xor.assoc)
qed

lemma length_xor_block: "length (xor_block a b) = min (length a) (length b)"
  by (simp add: xor_block_def)

lemma cbc_blocks_roundtrip:
  assumes "\<And>b. length b = 16 \<Longrightarrow> length (enc b) = 16 \<and> dec (enc b) = b"
  shows "length prev = 16 \<Longrightarrow> list_all (\<lambda>b. length b = 16) bs \<Longrightarrow>
         cbc_decrypt_blocks dec prev (cbc_encrypt_blocks enc prev bs) = bs
         \<and> list_all (\<lambda>c. length c = 16) (cbc_encrypt_blocks enc prev bs)
         \<and> length (cbc_encrypt_blocks enc prev bs) = length bs"
proof (induction bs arbitrary: prev)
  case Nil
  then show ?case by simp
next
  case (Cons b bs)
  have lb: "length b = 16" and rest: "list_all (\<lambda>b. length b = 16) bs" using Cons.prems by simp_all
  have lx: "length (xor_block b prev) = 16" using lb Cons.prems(1) by (simp add: length_xor_block)
  have c: "length (enc (xor_block b prev)) = 16" "dec (enc (xor_block b prev)) = xor_block b prev"
    using assms[OF lx] by simp_all
  have undo: "xor_block (xor_block b prev) prev = b"
    using lb Cons.prems(1) by (simp add: xor_block_cancel)
  show ?case using Cons.IH[OF c(1) rest] c undo by (simp add: Let_def)
qed

lemma concat_blocks: "length p = 16 * n \<Longrightarrow> concat (blocks n p) = p"
proof (induction n arbitrary: p)
  case 0
  then show ?case by simp
next
  case (Suc n)
  then have "length (drop 16 p) = 16 * n" by simp
  from Suc.IH[OF this] show ?case by simp
qed

lemma blocks_lengths: "length p = 16 * n \<Longrightarrow> list_all (\<lambda>b. length b = 16) (blocks n p)"
proof (induction n arbitrary: p)
  case 0
  then show ?case by simp
next
  case (Suc n)
  then have "length (drop 16 p) = 16 * n" by simp
  from Suc.IH[OF this] Suc.prems show ?case by simp
qed

lemma length_blocks: "length (blocks n p) = n"
  by (induction n arbitrary: p) simp_all

lemma blocks_concat:
  "list_all (\<lambda>b. length b = 16) bs \<Longrightarrow> blocks (length bs) (concat bs) = bs"
  by (induction bs) simp_all

lemma length_concat_blocks:
  "list_all (\<lambda>b. length b = 16) bs \<Longrightarrow> length (concat bs) = 16 * length bs"
  by (induction bs) simp_all

lemma length_pkcs7_pad: "length (pkcs7_pad p) = 16 * (length p div 16 + 1)"
proof -
  define q where "q = length p div 16"
  define r where "r = length p mod 16"
  have "length p = 16 * q + r" "r < 16" unfolding q_def r_def by simp_all
  then have "length p + (16 - r) = 16 * (q + 1)" by simp
  then show ?thesis unfolding pkcs7_pad_def Let_def q_def r_def by simp
qed

lemma pkcs7_roundtrip: "pkcs7_unpad (pkcs7_pad p) = Some p"
proof -
  define n where "n = 16 - length p mod 16"
  have n: "0 < n" "n \<le> 16" unfolding n_def by simp_all
  have u: "unat (of_nat n :: byte) = n" using n by (intro unat_byte) simp
  have pad: "pkcs7_pad p = p @ replicate n (of_nat n)" by (simp add: pkcs7_pad_def n_def)
  have l: "last (p @ replicate n (of_nat n :: byte)) = of_nat n" using n by simp
  show ?thesis unfolding pad pkcs7_unpad_def l u Let_def using n
    by (simp add: list_all_iff)
qed

lemma aes_256_cbc_roundtrip:
  assumes "block_cipher E D" "length key = 32" "length iv = 16"
  shows "aes_256_cbc_decrypt D key iv (aes_256_cbc_encrypt E key iv p) = Inr p"
proof -
  define n where "n = length p div 16 + 1"
  define padded where "padded = pkcs7_pad p"
  define bs where "bs = blocks n padded"
  define cs where "cs = cbc_encrypt_blocks (E key) iv bs"
  have lp: "length padded = 16 * n" unfolding padded_def n_def by (rule length_pkcs7_pad)
  have bl: "list_all (\<lambda>b. length b = 16) bs" unfolding bs_def using lp by (rule blocks_lengths)
  have ok: "\<And>b. length b = 16 \<Longrightarrow> length (E key b) = 16 \<and> D key (E key b) = b"
    using assms(1,2) unfolding block_cipher_def by blast
  note rt = cbc_blocks_roundtrip[of "E key" "D key", OF ok assms(3) bl]
  have lcs: "length cs = n" using rt unfolding cs_def bs_def by (simp add: length_blocks)
  have ccs: "list_all (\<lambda>c. length c = 16) cs" using rt unfolding cs_def by simp
  have enc: "aes_256_cbc_encrypt E key iv p = concat cs"
    unfolding aes_256_cbc_encrypt_def Let_def cs_def bs_def padded_def[symmetric] using lp by simp
  have lc: "length (concat cs) = 16 * n" using length_concat_blocks[OF ccs] lcs by simp
  have "0 < length (concat cs)" using lc unfolding n_def by simp
  then have ne: "concat cs \<noteq> []" by simp
  have bc: "blocks n (concat cs) = cs"
    using blocks_concat[OF ccs] lcs by simp
  have dec: "cbc_decrypt_blocks (D key) iv cs = bs" using rt unfolding cs_def by simp
  have cb: "concat bs = padded" unfolding bs_def using lp by (rule concat_blocks)
  show ?thesis
    unfolding enc aes_256_cbc_decrypt_def using ne lc
    by (simp add: bc dec cb padded_def pkcs7_roundtrip)
qed

lemma encryptData_Inr:
  assumes "encryptData E data key iv = Inr envelope"
  shows "length (normalizeKey key) = 32" "length iv = 16"
    "envelope = hex_encode iv @ [0x3A]
       @ hex_encode (aes_256_cbc_encrypt E (normalizeKey key) iv (utf8_encode data))"
  using assms by (auto simp: encryptData_def Let_def split: if_splits)

lemma decrypt_envelope:
  assumes "block_cipher E D" "length (normalizeKey key) = 32" "length iv = 16"
  shows "decryptData D (hex_encode iv @ [0x3A]
            @ hex_encode (aes_256_cbc_encrypt E (normalizeKey key) iv p)) key
         = Inr (utf8_decode p)"
proof -
  let ?ct = "aes_256_cbc_encrypt E (normalizeKey key) iv p"
  have sp: "split_on 0x3A (hex_encode iv @ [0x3A] @ hex_encode ?ct) = [hex_encode iv, hex_encode ?ct]"
    using split_on_first[OF colon_notin_hex, of iv "hex_encode ?ct"]
      split_on_none[OF colon_notin_hex, of ?ct] by simp
  show ?thesis
    unfolding decryptData_def Let_def sp
    using assms by (simp add: hex_roundtrip length_hex_encode aes_256_cbc_roundtrip)
qed

lemma decrypt_encrypt:
  assumes "block_cipher E D" "encryptData E data key iv = Inr envelope"
  shows "decryptData D envelope key = Inr (utf8_decode (utf8_encode data))"
  unfolding encryptData_Inr(3)[OF assms(2)]
  using assms(1) encryptData_Inr(1,2)[OF assms(2)] by (rule decrypt_envelope)

lemma decryptData_Inr_key:
  assumes "decryptData D envelope key = Inr p"
  shows "length (normalizeKey key) = 32"
  using assms
  by (auto simp: decryptData_def Let_def split: list.splits if_splits)

subsection \<open>ASCII text, ASCII keys and the example cipher\<close>

lemma block_cipher_xor: "block_cipher xor_cipher xor_cipher"
  unfolding block_cipher_def xor_cipher_def
  by (auto simp: length_xor_block xor_block_cancel)

lemma utf8_encode_unit:
  "\<not> is_high_surrogate c \<Longrightarrow> \<not> is_low_surrogate c \<Longrightarrow>
   utf8_encode (c # cs) = utf8_of_codepoint (unat c) @ utf8_encode cs"
  by (cases cs) simp_all

lemma ascii_not_surrogate:
  "unat c < 0x80 \<Longrightarrow> \<not> is_high_surrogate c \<and> \<not> is_low_surrogate c"
  by (simp add: is_high_surrogate_def is_low_surrogate_def)

lemma ascii_length_utf8: "ascii s \<Longrightarrow> length (utf8_encode s) = length s"
proof (induction s)
  case Nil
  then show ?case by simp
next
  case (Cons c s)
  then have c: "unat c < 0x80" and s: "ascii s" by (simp_all add: ascii_def)
  show ?case using Cons.IH[OF s] c ascii_not_surrogate[OF c]
    by (simp add: utf8_encode_unit utf8_of_codepoint_def)
qed

lemma ascii_wellformed: "ascii s \<Longrightarrow> wellformed_utf16 s"
proof (induction s rule: wellformed_utf16.induct)
  case 1
  then show ?case by simp
next
  case (2 c)
  then show ?case using ascii_not_surrogate[of c] by (simp add: ascii_def)
next
  case (3 c d cs)
  then show ?case using ascii_not_surrogate[of c] by (simp add: ascii_def)
qed

lemma hex_digit_ascii: "n < 16 \<Longrightarrow> unat (hex_digit n) < 0x80"
  by (simp add: unat_hex_digit)

lemma ascii_hex_encode: "ascii (hex_encode bs)"
proof (induction bs)
  case Nil
  then show ?case by (simp add: ascii_def)
next
  case (Cons b bs)
  have "unat b div 16 < 16" using unat_byte_less[of b] by simp
  moreover have "unat b mod 16 < 16" by simp
  ultimately show ?case using Cons by (simp add: ascii_def hex_digit_ascii)
qed

lemma ascii_append: "ascii (a @ b) = (ascii a \<and> ascii b)"
  by (simp add: ascii_def)

lemma normalizeKey_ascii: "ascii (take 32 key) \<Longrightarrow> length (normalizeKey key) = 32"
proof -
  assume a: "ascii (take 32 key)"
  have "ascii (take 32 (padEnd 32 key))"
    using a by (simp add: padEnd_def ascii_def list_all_iff) (auto dest: in_set_takeD)
  then have "length (normalizeKey key) = length (take 32 (padEnd 32 key))"
    unfolding normalizeKey_def by (rule ascii_length_utf8)
  then show ?thesis by (simp add: padEnd_def)
qed

lemma length_utf8_of_codepoint:
  "1 \<le> length (utf8_of_codepoint n)"
  "length (utf8_of_codepoint n) = 1 \<longleftrightarrow> n < 0x80"
  by (simp_all add: utf8_of_codepoint_def)

lemma length_utf8_encode_ge: "length s \<le> length (utf8_encode s)"
proof (induction s rule: utf8_encode.induct)
  case 1
  then show ?case by simp
next
  case (2 c)
  then show ?case using length_utf8_of_codepoint(1)[of "unat c"]
    by (simp add: replacement_bytes_def)
next
  case (3 c d cs)
  then show ?case
    using length_utf8_of_codepoint(1)[of "unat c"]
      length_utf8_of_codepoint(1)[of "0x10000 + (unat c - 0xD800) * 1024 + (unat d - 0xDC00)"]
    by (auto simp: replacement_bytes_def utf8_of_codepoint_def)
qed

lemma length_utf8_encode_eq_ascii: "length (utf8_encode s) = length s \<Longrightarrow> ascii s"
proof (induction s rule: utf8_encode.induct)
  case 1
  then show ?case by (simp add: ascii_def)
next
  case (2 c)
  then show ?case using length_utf8_of_codepoint(2)[of "unat c"]
    by (simp add: replacement_bytes_def ascii_def split: if_splits)
next
  case (3 c d cs)
  show ?case
  proof (cases "is_high_surrogate c \<and> is_low_surrogate d")
    case True
    have "2 \<le> length (utf8_of_codepoint (0x10000 + (unat c - 0xD800) * 1024 + (unat d - 0xDC00)))"
      by (simp add: utf8_of_codepoint_def)
    moreover have "utf8_encode (c # d # cs)
        = utf8_of_codepoint (0x10000 + (unat c - 0xD800) * 1024 + (unat d - 0xDC00)) @ utf8_encode cs"
      using True by simp
    ultimately show ?thesis using "3.prems" length_utf8_encode_ge[of cs]
      by (simp add: utf8_of_codepoint_def)
  next
    case False
    note nf = this
    show ?thesis
    proof (cases "is_high_surrogate c \<or> is_low_surrogate c")
      case True
      have "utf8_encode (c # d # cs) = replacement_bytes @ utf8_encode (d # cs)"
        using nf True by auto
      with "3.prems" length_utf8_encode_ge[of "d # cs"] show ?thesis
        by (simp add: replacement_bytes_def)
    next
      case False
      have "utf8_encode (c # d # cs) = utf8_of_codepoint (unat c) @ utf8_encode (d # cs)"
        using nf False by auto
      with "3.prems" have e: "length (utf8_of_codepoint (unat c)) + length (utf8_encode (d # cs))
          = Suc (length (d # cs))" by simp
      have one: "length (utf8_of_codepoint (unat c)) = 1"
        using e length_utf8_encode_ge[of "d # cs"] length_utf8_of_codepoint(1)[of "unat c"]
        by linarith
      then have rest: "length (utf8_encode (d # cs)) = length (d # cs)" using e by simp
      have "ascii (d # cs)" using "3.IH"(3)[OF nf False rest] .
      moreover have "unat c < 0x80" using one length_utf8_of_codepoint(2)[of "unat c"] by simp
      ultimately show ?thesis by (simp add: ascii_def)
    qed
  qed
qed

lemma normalizeKey_32_iff_ascii: "length (normalizeKey key) = 32 \<longleftrightarrow> ascii (take 32 key)"
proof
  assume l: "length (normalizeKey key) = 32"
  have "length (take 32 (padEnd 32 key)) = 32" by (simp add: padEnd_def)
  with l have "ascii (take 32 (padEnd 32 key))"
    unfolding normalizeKey_def by (intro length_utf8_encode_eq_ascii) simp
  then show "ascii (take 32 key)" by (simp add: padEnd_def ascii_def)
next
  assume "ascii (take 32 key)"
  then show "length (normalizeKey key) = 32" by (rule normalizeKey_ascii)
qed

lemma encryptData_ascii_key:
  assumes "ascii (take 32 key)" "length iv = 16"
  shows "\<exists>envelope. encryptData E data key iv = Inr envelope"
  using assms normalizeKey_ascii[OF assms(1)] by (simp add: encryptData_def)

section \<open>Properties of the storage module and of the manager\<close>

lemma storage_names_distinct:
  "js ''encrypted-file'' \<noteq> js ''database''" "js ''encrypted-file'' \<noteq> js ''memory''"
  "js ''database'' \<noteq> js ''memory''" "js ''database'' \<noteq> js ''encrypted-file''"
  "js ''memory'' \<noteq> js ''encrypted-file''" "js ''memory'' \<noteq> js ''database''"
  by (simp_all add: js_def)

lemma loadAuthState_parse_error_absent:
  assumes "cachedValid now k s = None" "runtime s = Some rt"
    "retrieveData k (storageType rt) rt s = Inr (Some blob)" "blob \<noteq> []"
    "decryptWith pf blob (encryptionKey rt) = Inr d" "JSON_parse pf d = None"
  shows "loadAuthState pf now iv k s = (Inr None, console_log LogParseError s)"
  using assms by (simp add: loadAuthState_def)

lemma storeData_unsupported:
  assumes "t \<noteq> JString (js ''encrypted-file'')" "t \<noteq> JString (js ''database'')"
    "t \<noteq> JString (js ''memory'')"
  shows "storeData k d t rt s = (Inl (UnsupportedStorageType t), s)"
  using assms by (simp add: storeData_def)

lemma retrieveData_unsupported:
  assumes "t \<noteq> JString (js ''encrypted-file'')" "t \<noteq> JString (js ''database'')"
    "t \<noteq> JString (js ''memory'')"
  shows "retrieveData k t rt s = Inl (UnsupportedStorageType t)"
  using assms by (simp add: retrieveData_def)

lemma loadAuthState_retrieve_error:
  assumes "cachedValid now k s = None" "runtime s = Some rt"
    "retrieveData k (storageType rt) rt s = Inl e"
  shows "loadAuthState pf now iv k s = (Inl e, s)"
  using assms by (simp add: loadAuthState_def)

lemma storeData_Inl_unchanged:
  "storeData k d t rt s = (Inl e, s2) \<Longrightarrow> s2 = s"
  by (auto simp: storeData_def storeInDatabase_def split: if_splits option.splits)

lemma saveAuthState_Inl:
  assumes "saveAuthState pf iv k A s = (Inl e, s1)"
  shows "s1 = s\<lparr>authCache := (authCache s)(k \<mapsto> A)\<rparr>"
  using assms
  by (auto simp: saveAuthState_def Let_def split: option.splits sum.splits prod.splits
      dest: storeData_Inl_unchanged)

lemma refreshAuthState_save_Inl:
  assumes "runtime s = Some rt"
    "saveAuthState pf iv k (refreshedState rt now R) s = (Inl e, s1)"
  shows "refreshAuthState pf now iv k R s = (None, console_log (LogRefreshError e) s1)"
    "authCache s1 k = Some (refreshedState rt now R)"
    "files s1 = files s" "auth_state s1 = auth_state s"
  using assms saveAuthState_Inl[OF assms(2)] by (simp_all add: refreshAuthState_def)

lemma saveAuthState_store_fails:
  assumes "runtime s = Some rt" "encryptionKey rt = JString K" "length (normalizeKey K) = 32"
    "length iv = 16"
    "\<And>env s0. storeData k (Some env) (storageType rt) rt s0 = (Inl e, s0)"
  shows "saveAuthState pf iv k A s = (Inl e, s\<lparr>authCache := (authCache s)(k \<mapsto> A)\<rparr>)"
proof -
  obtain env where env: "encryptData (aes_encrypt_block pf) (JSON_stringify pf A) K iv = Inr env"
    using assms(3,4) by (simp add: encryptData_def)
  show ?thesis
    using assms(1,2,5) env by (simp add: saveAuthState_def encryptWith_def)
qed

lemma envelope_ascii:
  assumes "encryptData E data key iv = Inr envelope"
  shows "ascii envelope" "envelope \<noteq> []"
proof -
  have "ascii [0x3A]" by (simp add: ascii_def)
  then show "ascii envelope" unfolding encryptData_Inr(3)[OF assms]
    by (simp only: ascii_append ascii_hex_encode simp_thms)
  show "envelope \<noteq> []" unfolding encryptData_Inr(3)[OF assms] by simp
qed

lemma retrieveData_frame:
  "files s' = files s \<Longrightarrow> auth_state s' = auth_state s \<Longrightarrow>
   retrieveData k t rt s' = retrieveData k t rt s"
  by (simp add: retrieveData_def retrieveFromFile_def retrieveFromDatabase_def)

lemma retrieveData_Some_persistent:
  "retrieveData k t rt s = Inr (Some b) \<Longrightarrow> persistent t rt"
  by (auto simp: retrieveData_def retrieveFromDatabase_def persistent_def split: if_splits)

lemma storeData_then_retrieve:
  assumes "persistent t rt" "ascii env"
  shows "\<exists>s2. storeData k (Some env) t rt s = (Inr (), s2)
            \<and> retrieveData k t rt s2 = Inr (Some env)
            \<and> authCache s2 = authCache s \<and> runtime s2 = runtime s \<and> console s2 = console s"
proof -
  have rt: "utf8_decode (utf8_encode env) = env"
    using assms(2) by (intro utf8_roundtrip ascii_wellformed)
  show ?thesis
    using assms(1) rt
    by (auto simp: persistent_def storeData_def retrieveData_def storeInFile_def
        retrieveFromFile_def storeInDatabase_def retrieveFromDatabase_def storage_names_distinct)
qed

lemma decryptWith_Inr_key:
  assumes "decryptWith pf blob v = Inr d"
  shows "\<exists>K. v = JString K \<and> length (normalizeKey K) = 32"
  using assms by (auto simp: decryptWith_def split: jsvalue.splits dest: decryptData_Inr_key)

lemma saveAuthState_stores:
  assumes "runtime s = Some rt" "encryptionKey rt = JString K" "length (normalizeKey K) = 32"
    "length iv = 16" "persistent (storageType rt) rt"
  shows "\<exists>s1 env. saveAuthState pf iv k A s = (Inr (), s1)
          \<and> encryptData (aes_encrypt_block pf) (JSON_stringify pf A) K iv = Inr env
          \<and> retrieveData k (storageType rt) rt s1 = Inr (Some env)
          \<and> authCache s1 = (authCache s)(k \<mapsto> A) \<and> runtime s1 = runtime s"
proof -
  obtain env where env: "encryptData (aes_encrypt_block pf) (JSON_stringify pf A) K iv = Inr env"
    using assms(3,4) by (simp add: encryptData_def)
  let ?s0 = "s\<lparr>authCache := (authCache s)(k \<mapsto> A)\<rparr>"
  obtain s2 where s2: "storeData k (Some env) (storageType rt) rt ?s0 = (Inr (), s2)"
    "retrieveData k (storageType rt) rt s2 = Inr (Some env)"
    "authCache s2 = authCache ?s0" "runtime s2 = runtime ?s0"
    using storeData_then_retrieve[OF assms(5) envelope_ascii(1)[OF env], of k ?s0] by blast
  have "saveAuthState pf iv k A s = (Inr (), console_log (LogSaved k) s2)"
    using assms(1,2) env s2(1) by (simp add: saveAuthState_def encryptWith_def)
  moreover have "retrieveData k (storageType rt) rt (console_log (LogSaved k) s2) = Inr (Some env)"
    using s2(2) retrieveData_frame[of "console_log (LogSaved k) s2" s2] by (simp add: console_log_def)
  ultimately show ?thesis using env s2(3,4) by (auto simp: console_log_def)
qed

lemma refreshedState_value:
  assumes "parseInt (js_or (getSetting rt (js ''authStateTTL'')) (JString (js ''86400''))) = Num ttl"
  shows "refreshedState rt now R = R\<lparr>timestamp := Num now, expiresAt := Num (now + ttl * 1000)\<rparr>"
  using assms by (simp add: refreshedState_def)

lemma setting_names_distinct:
  "js ''ENCRYPTION_KEY'' \<noteq> js ''authStateStorageType''"
  "js ''ENCRYPTION_KEY'' \<noteq> js ''autoRefresh''"
  "js ''authStateTTL'' \<noteq> js ''authStateStorageType''"
  "js ''authStateTTL'' \<noteq> js ''autoRefresh''"
  "js ''autoRefresh'' \<noteq> js ''authStateStorageType''"
  by (simp_all add: js_def)

lemma example_encryptionKey:
  "encryptionKey (example_runtime st ar ad) = JString (js ''default-key'')"
  by (simp add: encryptionKey_def example_runtime_def js_or_def setting_names_distinct)

lemma default_key_length: "length (normalizeKey (js ''default-key'')) = 32"
  by (rule normalizeKey_ascii) (simp add: js_def ascii_def)

lemma example_storageType:
  "storageType (example_runtime st ar ad) = (if truthy st then st else JString (js ''encrypted-file''))"
  by (simp add: storageType_def example_runtime_def js_or_def)

lemma example_autoRefresh: "getSetting (example_runtime st ar ad) (js ''autoRefresh'') = ar"
  by (simp add: example_runtime_def setting_names_distinct)

lemma parseInt_86400: "parseInt_string (js ''86400'') = Num 86400"
  by (simp add: parseInt_string_def js_def js_whitespace_def is_digit_def digits_value_def)

lemma example_ttl:
  "parseInt (js_or (getSetting (example_runtime st ar ad) (js ''authStateTTL'')) (JString (js ''86400'')))
   = Num 86400"
  by (simp add: example_runtime_def setting_names_distinct js_or_def parseInt_86400)

lemma example_block_cipher:
  "block_cipher (aes_encrypt_block example_platform) (aes_decrypt_block example_platform)"
  by (simp add: example_platform_def block_cipher_xor)

lemma length_example_iv: "length example_iv = 16"
  by (simp add: example_iv_def)

lemma example_json:
  "JSON_parse example_platform (JSON_stringify example_platform example_record) = Some example_record"
  "wellformed_utf16 (JSON_stringify example_platform example_record)"
proof -
  show "JSON_parse example_platform (JSON_stringify example_platform example_record) = Some example_record"
    by (simp add: example_platform_def example_parse_def example_stringify_def)
  have "ascii (js ''{session:1}'')" by (simp add: js_def ascii_def)
  then have "wellformed_utf16 (js ''{session:1}'')" by (rule ascii_wellformed)
  then show "wellformed_utf16 (JSON_stringify example_platform example_record)"
    by (simp add: example_platform_def example_stringify_def)
qed

lemma example_initialized_runtime:
  "runtime (example_initialized st ar ad) = Some (example_runtime st ar ad)"
  "authCache (example_initialized st ar ad) = Map.empty"
  by (simp_all add: example_initialized_def initialize_def console_log_def empty_world_def)

lemma example_key_plain: "plain_file_name example_key"
proof -
  have "ascii (example_key @ js ''.auth'')" by (simp add: example_key_def js_def ascii_def)
  then have "length (utf8_encode (example_key @ js ''.auth'')) = length (example_key @ js ''.auth'')"
    by (rule ascii_length_utf8)
  then show ?thesis by (simp add: plain_file_name_def example_key_def js_def)
qed

lemma example_persistent_file: "persistent (storageType (example_runtime JNull ar ad)) (example_runtime JNull ar ad)"
  by (simp add: example_storageType persistent_def)

lemma example_saved_file:
  "\<exists>env. runtime (example_saved JNull ar ad) = Some (example_runtime JNull ar ad)
     \<and> authCache (example_saved JNull ar ad) example_key = Some example_record
     \<and> encryptData xor_cipher (example_stringify example_record) (js ''default-key'') example_iv = Inr env
     \<and> retrieveData example_key (storageType (example_runtime JNull ar ad)) (example_runtime JNull ar ad)
          (example_saved JNull ar ad) = Inr (Some env)"
proof -
  let ?rt = "example_runtime JNull ar ad"
  have r: "runtime (example_initialized JNull ar ad) = Some ?rt"
    by (rule example_initialized_runtime)
  have k: "encryptionKey ?rt = JString (js ''default-key'')" by (rule example_encryptionKey)
  have p: "persistent (storageType ?rt) ?rt" by (rule example_persistent_file)
  obtain s1 env where s1:
    "saveAuthState example_platform example_iv example_key example_record (example_initialized JNull ar ad)
       = (Inr (), s1)"
    "encryptData (aes_encrypt_block example_platform) (JSON_stringify example_platform example_record)
       (js ''default-key'') example_iv = Inr env"
    "retrieveData example_key (storageType ?rt) ?rt s1 = Inr (Some env)"
    "authCache s1 = (authCache (example_initialized JNull ar ad))(example_key \<mapsto> example_record)"
    "runtime s1 = runtime (example_initialized JNull ar ad)"
    using saveAuthState_stores[OF r k default_key_length length_example_iv p] by blast
  have "example_saved JNull ar ad = s1" using s1(1) by (simp add: example_saved_def)
  then show ?thesis using s1(2-5) r by (auto simp: example_platform_def)
qed

lemma example_record_times: "isValid 500 example_record" "\<not> isValid 5000 example_record"
  "hasRefreshToken example_record"
  by (simp_all add: isValid_def example_record_def hasRefreshToken_def js_def)

lemma example_saved_load_facts:
  "\<exists>env. cachedValid 5000 example_key (example_saved JNull ar ad) = None
     \<and> runtime (example_saved JNull ar ad) = Some (example_runtime JNull ar ad)
     \<and> retrieveData example_key (storageType (example_runtime JNull ar ad)) (example_runtime JNull ar ad)
          (example_saved JNull ar ad) = Inr (Some env)
     \<and> env \<noteq> []
     \<and> decryptWith example_platform env (encryptionKey (example_runtime JNull ar ad))
          = Inr (example_stringify example_record)"
proof -
  obtain env where e: "runtime (example_saved JNull ar ad) = Some (example_runtime JNull ar ad)"
    "authCache (example_saved JNull ar ad) example_key = Some example_record"
    "encryptData xor_cipher (example_stringify example_record) (js ''default-key'') example_iv = Inr env"
    "retrieveData example_key (storageType (example_runtime JNull ar ad)) (example_runtime JNull ar ad)
          (example_saved JNull ar ad) = Inr (Some env)"
    using example_saved_file[of ar ad] by blast
  have c: "cachedValid 5000 example_key (example_saved JNull ar ad) = None"
    using e(2) example_record_times(2) by (simp add: cachedValid_def)
  have d: "decryptWith example_platform env (encryptionKey (example_runtime JNull ar ad))
          = Inr (example_stringify example_record)"
    using decrypt_encrypt[OF block_cipher_xor e(3)] example_json(2)
    by (simp add: decryptWith_def example_encryptionKey example_platform_def utf8_roundtrip)
  show ?thesis using c e(1,4) envelope_ascii(2)[OF e(3)] d by blast
qed

lemma decryptData_zz: "decryptData D (js ''zz'') K = Inl InvalidIV"
  by (simp add: decryptData_def js_def unhex_def)

lemma saveAuthState_memory:
  assumes "runtime s = Some rt" "encryptionKey rt = JString K" "length (normalizeKey K) = 32"
    "length iv = 16" "storageType rt = JString (js ''memory'')"
  shows "saveAuthState pf iv k A s
         = (Inr (), console_log (LogSaved k) (s\<lparr>authCache := (authCache s)(k \<mapsto> A)\<rparr>))"
proof -
  obtain env where env: "encryptData (aes_encrypt_block pf) (JSON_stringify pf A) K iv = Inr env"
    using assms(3,4) by (simp add: encryptData_def)
  show ?thesis
    using assms(1,2,5) env
    by (simp add: saveAuthState_def encryptWith_def storeData_def storage_names_distinct)
qed

lemma loadAuthState_memory_miss:
  assumes "runtime s = Some rt" "storageType rt = JString (js ''memory'')"
    "cachedValid now k s = None"
  shows "loadAuthState pf now iv k s = (Inr None, console_log (LogNoneFound k) s)"
  using assms by (simp add: loadAuthState_def retrieveData_def storage_names_distinct)

lemma example_memory:
  "storageType (example_runtime (JString (js ''memory'')) ar ad) = JString (js ''memory'')"
  by (simp add: example_storageType js_def)

lemma example_saved_memory:
  "example_saved (JString (js ''memory'')) ar ad
   = console_log (LogSaved example_key)
       ((example_initialized (JString (js ''memory'')) ar ad)
          \<lparr>authCache := (authCache (example_initialized (JString (js ''memory'')) ar ad))
                          (example_key \<mapsto> example_record)\<rparr>)"
proof -
  let ?rt = "example_runtime (JString (js ''memory'')) ar ad"
  have r0: "runtime (example_initialized (JString (js ''memory'')) ar ad) = Some ?rt"
    by (rule example_initialized_runtime)
  have k: "encryptionKey ?rt = JString (js ''default-key'')" by (rule example_encryptionKey)
  have m: "storageType ?rt = JString (js ''memory'')" by (rule example_memory)
  show ?thesis
    unfolding example_saved_def
    using saveAuthState_memory[OF r0 k default_key_length length_example_iv m] by simp
qed

lemma s3_unsupported:
  "JString (js ''s3'') \<noteq> JString (js ''encrypted-file'')"
  "JString (js ''s3'') \<noteq> JString (js ''database'')"
  "JString (js ''s3'') \<noteq> JString (js ''memory'')"
  by (simp_all add: js_def)

lemma example_s3: "storageType (example_runtime (JString (js ''s3'')) ar ad) = JString (js ''s3'')"
  by (simp add: example_storageType js_def)

lemma example_refreshed:
  "refreshedState (example_runtime st ar ad) 5000 example_record
   = example_record\<lparr>timestamp := Num 5000, expiresAt := Num 86405000\<rparr>"
  using refreshedState_value[OF example_ttl, of st ar ad 5000 example_record] by simp

lemma example_database:
  "storageType (example_runtime (JString (js ''database'')) ar ad) = JString (js ''database'')"
  by (simp add: example_storageType js_def)

section \<open>The claims\<close>

subsection \<open>Loading a blob that cannot be decrypted\<close>

text \<open>
  C1: a failure of decryption, or a payload that is not JSON, should make
  \<open>loadAuthState\<close> return absent without raising.  The code calls \<open>decryptData\<close> before
  its \<open>try\<close> block: when no valid record is cached, the backend returns a non-empty blob
  and the cipher fails on it with an error, \<open>loadAuthState\<close> ends with that error as an
  exception and leaves the state as it was.  (A payload that decrypts but does not parse
  is caught and gives absent: lemma \<open>loadAuthState_parse_error_absent\<close>.)
\<close>

theorem loadAuthState_decrypt_error_propagates:
  assumes "cachedValid now k s = None" "runtime s = Some rt"
    "retrieveData k (storageType rt) rt s = Inr (Some blob)" "blob \<noteq> []"
    "decryptWith pf blob (encryptionKey rt) = Inl e"
  shows "loadAuthState pf now iv k s = (Inl e, s)"
  using assms by (simp add: loadAuthState_def)

text \<open>
  The file of the session key holds the text \<open>zz\<close>: it has no colon and no hexadecimal
  digits, \<open>createDecipheriv\<close> rejects the empty initialization vector, and the call ends
  with that error.
\<close>

theorem loadAuthState_decrypt_error_propagates_witness:
  "loadAuthState example_platform 5000 example_iv example_key example_corrupt = (Inl InvalidIV, example_corrupt)"
proof -
  let ?rt = "example_runtime JNull JNull False"
  have c: "cachedValid 5000 example_key example_corrupt = None"
    by (simp add: cachedValid_def example_corrupt_def example_initialized_runtime)
  have r: "runtime example_corrupt = Some ?rt"
    by (simp add: example_corrupt_def example_initialized_runtime)
  have "ascii (js ''zz'')" by (simp add: js_def ascii_def)
  then have u: "utf8_decode (utf8_encode (js ''zz'')) = js ''zz''"
    by (intro utf8_roundtrip ascii_wellformed)
  have g: "retrieveData example_key (storageType ?rt) ?rt example_corrupt = Inr (Some (js ''zz''))"
    by (simp add: example_storageType retrieveData_def retrieveFromFile_def example_corrupt_def u)
  have n: "js ''zz'' \<noteq> []" by (simp add: js_def)
  have d: "decryptWith example_platform (js ''zz'') (encryptionKey ?rt) = Inl InvalidIV"
    by (simp add: decryptWith_def example_encryptionKey decryptData_zz)
  show ?thesis by (rule loadAuthState_decrypt_error_propagates[OF c r g n d])
qed

subsection \<open>Round trip of the cipher\<close>

text \<open>
  C2 (amended): for every block cipher, every key whose normalized form has 32 bytes
  (that is, whose first 32 code units are ASCII), every initialization vector of 16
  bytes and every well-formed string \<open>P\<close> (no unpaired surrogate; \<open>P\<close> may be empty),
  decrypting the encryption of \<open>P\<close> under the same key returns \<open>P\<close>.
\<close>

theorem decrypt_after_encrypt_roundtrip:
  assumes "block_cipher E D" "length (normalizeKey K) = 32" "length iv = 16" "wellformed_utf16 P"
  shows "decrypt_after_encrypt E D P K iv = Inr P"
proof -
  obtain envelope where e: "encryptData E P K iv = Inr envelope"
    using assms(2,3) by (simp add: encryptData_def)
  show ?thesis
    unfolding decrypt_after_encrypt_def e using decrypt_encrypt[OF assms(1) e] assms(4)
    by (simp add: utf8_roundtrip)
qed

theorem decrypt_after_encrypt_roundtrip_witness:
  "decrypt_after_encrypt xor_cipher xor_cipher (js ''hello'') (js ''key'') (replicate 16 7) = Inr (js ''hello'')"
proof -
  have k: "length (normalizeKey (js ''key'')) = 32"
    by (rule normalizeKey_ascii) (simp add: js_def ascii_def)
  have w: "wellformed_utf16 (js ''hello'')"
    by (rule ascii_wellformed) (simp add: js_def ascii_def)
  show ?thesis
    using decrypt_after_encrypt_roundtrip[OF block_cipher_xor k _ w, of "replicate 16 7"] by simp
qed

text \<open>
  The claim as stated, for every non-empty string, fails on an unpaired surrogate: UTF-8
  has no encoding for it, the cipher encrypts the bytes of U+FFFD, and decryption returns
  U+FFFD.
\<close>

theorem lone_surrogate_not_restored:
  "decrypt_after_encrypt xor_cipher xor_cipher [0xD800] (js ''key'') (replicate 16 7) = Inr [0xFFFD]
   \<and> decrypt_after_encrypt xor_cipher xor_cipher [0xD800] (js ''key'') (replicate 16 7) \<noteq> Inr [0xD800]"
proof -
  have k: "length (normalizeKey (js ''key'')) = 32"
    by (rule normalizeKey_ascii) (simp add: js_def ascii_def)
  obtain envelope where e: "encryptData xor_cipher [0xD800] (js ''key'') (replicate 16 7) = Inr envelope"
    using k by (simp add: encryptData_def)
  have "decrypt_after_encrypt xor_cipher xor_cipher [0xD800] (js ''key'') (replicate 16 7)
        = Inr (utf8_decode (utf8_encode [0xD800]))"
    unfolding decrypt_after_encrypt_def e using decrypt_encrypt[OF block_cipher_xor e] by simp
  also have "utf8_decode (utf8_encode [0xD800]) = [0xFFFD]"
    by (simp add: is_high_surrogate_def is_low_surrogate_def replacement_bytes_def continuation_def
        utf16_of_codepoint_def)
  finally show ?thesis by simp
qed

subsection \<open>Save, clear the cache, load\<close>

text \<open>
  C3 (amended): let the manager be initialized, the key setting normalize to 32 bytes,
  and \<open>R\<close> be a record that the JSON functions round-trip and that is valid at the time
  of loading.  With the file backend and a session key \<open>k\<close> that is a plain file name (no
  path separator, no NUL, \<open><k>.auth\<close> of at most 255 bytes), or with the database backend
  and an adapter and any session key, saving \<open>R\<close> under \<open>k\<close>, emptying the cache and
  loading \<open>k\<close> returns \<open>R\<close>.  With the memory backend the save succeeds and the load
  returns absent.  (For a key that is no plain file name the write of the file backend
  can throw; nothing is claimed for it.)
\<close>

theorem save_clear_cache_load:
  assumes "runtime s = Some rt" "encryptionKey rt = JString K" "length (normalizeKey K) = 32"
    "length iv = 16" "block_cipher (aes_encrypt_block pf) (aes_decrypt_block pf)"
    "wellformed_utf16 (JSON_stringify pf R)" "JSON_parse pf (JSON_stringify pf R) = Some R"
    "isValid now R"
  shows "((storageType rt = JString (js ''encrypted-file'') \<and> plain_file_name k)
          \<or> (storageType rt = JString (js ''database'') \<and> databaseAdapter rt) \<longrightarrow>
            fst (saveAuthState pf iv k R s) = Inr ()
          \<and> fst (loadAuthState pf now iv' k
                   ((snd (saveAuthState pf iv k R s))\<lparr>authCache := Map.empty\<rparr>)) = Inr (Some R))
       \<and> (storageType rt = JString (js ''memory'') \<longrightarrow>
            fst (saveAuthState pf iv k R s) = Inr ()
          \<and> fst (loadAuthState pf now iv' k
                   ((snd (saveAuthState pf iv k R s))\<lparr>authCache := Map.empty\<rparr>)) = Inr None)"
proof (intro conjI impI)
  assume "(storageType rt = JString (js ''encrypted-file'') \<and> plain_file_name k)
          \<or> (storageType rt = JString (js ''database'') \<and> databaseAdapter rt)"
  then have p: "persistent (storageType rt) rt" by (auto simp: persistent_def)
  obtain s1 env where s1: "saveAuthState pf iv k R s = (Inr (), s1)"
    "encryptData (aes_encrypt_block pf) (JSON_stringify pf R) K iv = Inr env"
    "retrieveData k (storageType rt) rt s1 = Inr (Some env)"
    "runtime s1 = runtime s"
    using saveAuthState_stores[OF assms(1-4) p, of pf k R] by blast
  let ?s2 = "s1\<lparr>authCache := Map.empty\<rparr>"
  have ret: "retrieveData k (storageType rt) rt ?s2 = Inr (Some env)"
    using s1(3) retrieveData_frame[of ?s2 s1] by simp
  have dec: "decryptWith pf env (encryptionKey rt) = Inr (JSON_stringify pf R)"
    using decrypt_encrypt[OF assms(5) s1(2)] assms(2,6) by (simp add: decryptWith_def utf8_roundtrip)
  show "fst (saveAuthState pf iv k R s) = Inr ()" using s1(1) by simp
  show "fst (loadAuthState pf now iv' k ((snd (saveAuthState pf iv k R s))\<lparr>authCache := Map.empty\<rparr>))
        = Inr (Some R)"
    unfolding s1(1) using ret dec assms(1,7,8) s1(4) envelope_ascii(2)[OF s1(2)]
    by (simp add: loadAuthState_def cachedValid_def)
next
  assume m: "storageType rt = JString (js ''memory'')"
  obtain env where env: "encryptData (aes_encrypt_block pf) (JSON_stringify pf R) K iv = Inr env"
    using assms(3,4) by (simp add: encryptData_def)
  have save: "saveAuthState pf iv k R s
              = (Inr (), console_log (LogSaved k) (s\<lparr>authCache := (authCache s)(k \<mapsto> R)\<rparr>))"
    using assms(1,2) env m
    by (simp add: saveAuthState_def encryptWith_def storeData_def storage_names_distinct)
  show "fst (saveAuthState pf iv k R s) = Inr ()" using save by simp
  show "fst (loadAuthState pf now iv' k ((snd (saveAuthState pf iv k R s))\<lparr>authCache := Map.empty\<rparr>))
        = Inr None"
    unfolding save using assms(1) m
    by (simp add: loadAuthState_def cachedValid_def console_log_def retrieveData_def
        storage_names_distinct)
qed

theorem save_clear_cache_load_witness:
  "plain_file_name example_key
   \<and> fst (saveAuthState example_platform example_iv example_key example_record (example_initialized JNull JNull False))
     = Inr ()
   \<and> fst (loadAuthState example_platform 500 example_iv example_key
            ((example_saved JNull JNull False)\<lparr>authCache := Map.empty\<rparr>)) = Inr (Some example_record)"
proof -
  let ?rt = "example_runtime JNull JNull False"
  have r: "runtime (example_initialized JNull JNull False) = Some ?rt"
    by (rule example_initialized_runtime)
  have k: "encryptionKey ?rt = JString (js ''default-key'')" by (rule example_encryptionKey)
  have t: "storageType ?rt = JString (js ''encrypted-file'')" by (simp add: example_storageType)
  show ?thesis
    using save_clear_cache_load[OF r k default_key_length length_example_iv example_block_cipher
        example_json(2,1) example_record_times(1), where k = example_key and iv' = example_iv]
      t example_key_plain
    by (simp add: example_saved_def)
qed

text \<open>
  The claim as stated, for every backend, fails for the memory backend: it stores
  nothing, so after the cache is emptied the record is gone.
\<close>

theorem memory_backend_loses_saved_record:
  "fst (saveAuthState example_platform example_iv example_key example_record
          (example_initialized (JString (js ''memory'')) JNull False)) = Inr ()
   \<and> fst (loadAuthState example_platform 500 example_iv example_key
            ((example_saved (JString (js ''memory'')) JNull False)\<lparr>authCache := Map.empty\<rparr>))
     = Inr None"
proof -
  let ?rt = "example_runtime (JString (js ''memory'')) JNull False"
  let ?s0 = "example_initialized (JString (js ''memory'')) JNull False"
  let ?s2 = "(example_saved (JString (js ''memory'')) JNull False)\<lparr>authCache := Map.empty\<rparr>"
  have r0: "runtime ?s0 = Some ?rt" by (rule example_initialized_runtime)
  have k: "encryptionKey ?rt = JString (js ''default-key'')" by (rule example_encryptionKey)
  have m: "storageType ?rt = JString (js ''memory'')" by (rule example_memory)
  have save: "fst (saveAuthState example_platform example_iv example_key example_record ?s0) = Inr ()"
    using saveAuthState_memory[OF r0 k default_key_length length_example_iv m] by simp
  have r: "runtime ?s2 = Some ?rt"
    by (simp add: example_saved_memory console_log_def example_initialized_runtime)
  have c: "cachedValid 500 example_key ?s2 = None" by (simp add: cachedValid_def)
  show ?thesis
    using save loadAuthState_memory_miss[OF r m c] by simp
qed

subsection \<open>Refreshing an expired record on load\<close>

text \<open>
  C4: let no valid record be cached for \<open>k\<close>, let the backend hold a blob that decrypts
  and parses to a record \<open>R\<close> that has expired and carries a (non-empty) refresh token, let
  \<open>autoRefresh\<close> be \<open>true\<close> and the configured time to live be a positive number of
  seconds \<open>ttl\<close>.  Then \<open>loadAuthState\<close> returns \<open>R\<close> with \<open>timestamp = now\<close> and
  \<open>expiresAt = now + ttl * 1000\<close> and every other field (wallet key, permissions,
  network) unchanged; the new record is valid, it is the cache entry of \<open>k\<close>, and the
  backend now holds the encryption of its serialisation.
\<close>

theorem loadAuthState_refreshes_expired_record:
  assumes "cachedValid now k s = None" "runtime s = Some rt"
    "retrieveData k (storageType rt) rt s = Inr (Some blob)" "blob \<noteq> []"
    "decryptWith pf blob (encryptionKey rt) = Inr d" "JSON_parse pf d = Some R"
    "\<not> isValid now R" "hasRefreshToken R" "getSetting rt (js ''autoRefresh'') = JBool True"
    "parseInt (js_or (getSetting rt (js ''authStateTTL'')) (JString (js ''86400''))) = Num ttl"
    "0 < ttl" "length iv = 16"
  shows "fst (loadAuthState pf now iv k s) = Inr (Some (refreshedState rt now R))
       \<and> refreshedState rt now R = R\<lparr>timestamp := Num now, expiresAt := Num (now + ttl * 1000)\<rparr>
       \<and> isValid now (refreshedState rt now R)
       \<and> authCache (snd (loadAuthState pf now iv k s)) k = Some (refreshedState rt now R)
       \<and> (\<exists>envelope.
            encryptWith pf (JSON_stringify pf (refreshedState rt now R)) (encryptionKey rt) iv
              = Inr envelope
            \<and> retrieveData k (storageType rt) rt (snd (loadAuthState pf now iv k s))
              = Inr (Some envelope))"
proof -
  let ?R = "refreshedState rt now R"
  let ?s0 = "console_log (LogAttemptRefresh k) s"
  obtain K where K: "encryptionKey rt = JString K" "length (normalizeKey K) = 32"
    using decryptWith_Inr_key[OF assms(5)] by blast
  have p: "persistent (storageType rt) rt" using assms(3) by (rule retrieveData_Some_persistent)
  have r0: "runtime ?s0 = Some rt" using assms(2) by (simp add: console_log_def)
  obtain s1 env where s1: "saveAuthState pf iv k ?R ?s0 = (Inr (), s1)"
    "encryptData (aes_encrypt_block pf) (JSON_stringify pf ?R) K iv = Inr env"
    "retrieveData k (storageType rt) rt s1 = Inr (Some env)"
    "authCache s1 = (authCache ?s0)(k \<mapsto> ?R)"
    using saveAuthState_stores[OF r0 K assms(12) p, of pf k ?R] by blast
  have refresh: "refreshAuthState pf now iv k R ?s0 = (Some ?R, console_log (LogRefreshed k) s1)"
    using r0 s1(1) by (simp add: refreshAuthState_def)
  have load: "loadAuthState pf now iv k s = (Inr (Some ?R), console_log (LogRefreshed k) s1)"
    using assms(1-9) refresh by (simp add: loadAuthState_def)
  have v: "?R = R\<lparr>timestamp := Num now, expiresAt := Num (now + ttl * 1000)\<rparr>"
    using assms(10) by (rule refreshedState_value)
  have valid: "isValid now ?R" unfolding v using assms(11) by (simp add: isValid_def)
  have ret: "retrieveData k (storageType rt) rt (console_log (LogRefreshed k) s1) = Inr (Some env)"
    using s1(3) retrieveData_frame[of "console_log (LogRefreshed k) s1" s1]
    by (simp add: console_log_def)
  have enc: "encryptWith pf (JSON_stringify pf ?R) (encryptionKey rt) iv = Inr env"
    using K(1) s1(2) by (simp add: encryptWith_def)
  show ?thesis
    unfolding load using v valid s1(4) ret enc by (simp add: console_log_def)
qed

text \<open>
  The scenario of the specification: a record that expired at 1000 is saved with a refresh
  token, and loaded at 5000 with the default time to live of 86400 seconds.
\<close>

theorem loadAuthState_refreshes_expired_record_witness:
  "fst (loadAuthState example_platform 5000 example_iv example_key (example_saved JNull (JBool True) False))
   = Inr (Some (example_record\<lparr>timestamp := Num 5000, expiresAt := Num 86405000\<rparr>))"
proof -
  let ?rt = "example_runtime JNull (JBool True) False"
  obtain env where e: "cachedValid 5000 example_key (example_saved JNull (JBool True) False) = None"
     "runtime (example_saved JNull (JBool True) False) = Some ?rt"
     "retrieveData example_key (storageType ?rt) ?rt (example_saved JNull (JBool True) False) = Inr (Some env)"
     "env \<noteq> []"
     "decryptWith example_platform env (encryptionKey ?rt) = Inr (example_stringify example_record)"
    using example_saved_load_facts[of "JBool True" False] by blast
  have p: "JSON_parse example_platform (example_stringify example_record) = Some example_record"
    using example_json(1) by (simp add: example_platform_def)
  have pos: "(0::int) < 86400" by simp
  show ?thesis
    using loadAuthState_refreshes_expired_record[OF e p example_record_times(2,3) example_autoRefresh
        example_ttl pos length_example_iv]
    by simp
qed

subsection \<open>An unsupported storage type\<close>

text \<open>
  C5 (amended): when the configured storage type \<open>t\<close> is none of \<open>encrypted-file\<close>,
  \<open>database\<close> and \<open>memory\<close>, \<open>initialize\<close> still succeeds; every call of \<open>storeData\<close> and of
  \<open>retrieveData\<close> with \<open>t\<close> fails with the error that names \<open>t\<close> and changes nothing, and so
  does every \<open>loadAuthState\<close> that finds no valid cached record.
\<close>

theorem unsupported_storage_fails_at_each_use:
  assumes "storageType rt = t" "t \<noteq> JString (js ''encrypted-file'')"
    "t \<noteq> JString (js ''database'')" "t \<noteq> JString (js ''memory'')"
  shows "initialize rt s = (Inr (), console_log LogInitializing (s\<lparr>runtime := Some rt\<rparr>))
       \<and> storeData k d t rt s' = (Inl (UnsupportedStorageType t), s')
       \<and> retrieveData k t rt s' = Inl (UnsupportedStorageType t)
       \<and> (runtime s' = Some rt \<and> cachedValid now k s' = None \<longrightarrow>
            loadAuthState pf now iv k s' = (Inl (UnsupportedStorageType t), s'))"
  using assms storeData_unsupported[OF assms(2-4)] retrieveData_unsupported[OF assms(2-4)]
  by (auto simp: initialize_def intro: loadAuthState_retrieve_error)

theorem unsupported_storage_fails_at_each_use_witness:
  "initialize (example_runtime (JString (js ''s3'')) JNull False) empty_world
     = (Inr (), example_initialized (JString (js ''s3'')) JNull False)
   \<and> storeData example_key None (JString (js ''s3'')) (example_runtime (JString (js ''s3'')) JNull False)
       (example_initialized (JString (js ''s3'')) JNull False)
     = (Inl (UnsupportedStorageType (JString (js ''s3''))),
        example_initialized (JString (js ''s3'')) JNull False)
   \<and> retrieveData example_key (JString (js ''s3'')) (example_runtime (JString (js ''s3'')) JNull False)
       (example_initialized (JString (js ''s3'')) JNull False)
     = Inl (UnsupportedStorageType (JString (js ''s3'')))"
proof -
  let ?rt = "example_runtime (JString (js ''s3'')) JNull False"
  have t: "storageType ?rt = JString (js ''s3'')" by (rule example_s3)
  show ?thesis
    using unsupported_storage_fails_at_each_use[OF t s3_unsupported,
        where s = empty_world and k = example_key and d = None
          and s' = "example_initialized (JString (js ''s3'')) JNull False"]
    by (simp add: example_initialized_def initialize_def)
qed

text \<open>
  The claim as stated fails: with the storage type \<open>s3\<close>, \<open>initialize\<close> reports no error,
  and the first \<open>loadAuthState\<close> is where the error appears; the state it leaves is the
  state it found, so the next call fails in the same way.
\<close>

theorem unsupported_storage_accepted_by_initialize:
  "fst (initialize (example_runtime (JString (js ''s3'')) JNull False) empty_world) = Inr ()
   \<and> loadAuthState example_platform 5000 example_iv example_key
        (snd (initialize (example_runtime (JString (js ''s3'')) JNull False) empty_world))
     = (Inl (UnsupportedStorageType (JString (js ''s3''))),
        snd (initialize (example_runtime (JString (js ''s3'')) JNull False) empty_world))"
proof -
  let ?rt = "example_runtime (JString (js ''s3'')) JNull False"
  let ?s = "example_initialized (JString (js ''s3'')) JNull False"
  have c: "cachedValid 5000 example_key ?s = None"
    by (simp add: cachedValid_def example_initialized_runtime)
  have r: "runtime ?s = Some ?rt" by (rule example_initialized_runtime)
  have g: "retrieveData example_key (storageType ?rt) ?rt ?s
           = Inl (UnsupportedStorageType (JString (js ''s3'')))"
    unfolding example_s3 by (rule retrieveData_unsupported[OF s3_unsupported])
  show ?thesis
    using loadAuthState_retrieve_error[OF c r g, of example_platform example_iv]
    by (simp add: example_initialized_def initialize_def)
qed

subsection \<open>A save that fails during refresh\<close>

text \<open>
  C6 (amended): when the \<open>saveAuthState\<close> inside \<open>refreshAuthState\<close> fails, the error is
  caught and logged and \<open>refreshAuthState\<close> returns absent; the cache entry of the key is
  by then the refreshed record, while the files and the database table are as before.
\<close>

theorem refreshAuthState_swallows_save_failure:
  assumes "runtime s = Some rt"
    "saveAuthState pf iv k (refreshedState rt now R) s = (Inl e, s1)"
  shows "refreshAuthState pf now iv k R s = (None, console_log (LogRefreshError e) s1)
       \<and> authCache s1 k = Some (refreshedState rt now R)
       \<and> files s1 = files s \<and> auth_state s1 = auth_state s"
  using refreshAuthState_save_Inl[OF assms] by simp

theorem refreshAuthState_swallows_save_failure_witness:
  "fst (refreshAuthState example_platform 5000 example_iv example_key example_record
          (example_initialized (JString (js ''s3'')) (JBool True) False)) = None
   \<and> authCache (snd (refreshAuthState example_platform 5000 example_iv example_key example_record
          (example_initialized (JString (js ''s3'')) (JBool True) False))) example_key
     = Some (example_record\<lparr>timestamp := Num 5000, expiresAt := Num 86405000\<rparr>)"
proof -
  let ?rt = "example_runtime (JString (js ''s3'')) (JBool True) False"
  let ?s = "example_initialized (JString (js ''s3'')) (JBool True) False"
  let ?R = "refreshedState ?rt 5000 example_record"
  have r: "runtime ?s = Some ?rt" by (rule example_initialized_runtime)
  have k: "encryptionKey ?rt = JString (js ''default-key'')" by (rule example_encryptionKey)
  have st: "\<And>env s0. storeData example_key (Some env) (storageType ?rt) ?rt s0
              = (Inl (UnsupportedStorageType (JString (js ''s3''))), s0)"
    unfolding example_s3 by (rule storeData_unsupported[OF s3_unsupported])
  have save: "saveAuthState example_platform example_iv example_key ?R ?s
        = (Inl (UnsupportedStorageType (JString (js ''s3''))),
           ?s\<lparr>authCache := (authCache ?s)(example_key \<mapsto> ?R)\<rparr>)"
    by (rule saveAuthState_store_fails[OF r k default_key_length length_example_iv st])
  show ?thesis
    using refreshAuthState_swallows_save_failure[OF r save]
    by (simp add: example_refreshed console_log_def)
qed

text \<open>
  The claim as stated fails: with the database backend and no adapter the save inside
  the refresh throws, \<open>refreshAuthState\<close> returns absent instead of raising, and the cache
  holds the refreshed record although the table has no row for the key.
\<close>

theorem refresh_failure_returns_null_and_keeps_cache:
  "fst (refreshAuthState example_platform 5000 example_iv example_key example_record
          (example_initialized (JString (js ''database'')) (JBool True) False)) = None
   \<and> authCache (snd (refreshAuthState example_platform 5000 example_iv example_key example_record
          (example_initialized (JString (js ''database'')) (JBool True) False))) example_key
     = Some (example_record\<lparr>timestamp := Num 5000, expiresAt := Num 86405000\<rparr>)
   \<and> auth_state (snd (refreshAuthState example_platform 5000 example_iv example_key example_record
          (example_initialized (JString (js ''database'')) (JBool True) False))) example_key = None"
proof -
  let ?rt = "example_runtime (JString (js ''database'')) (JBool True) False"
  let ?s = "example_initialized (JString (js ''database'')) (JBool True) False"
  let ?R = "refreshedState ?rt 5000 example_record"
  have r: "runtime ?s = Some ?rt" by (rule example_initialized_runtime)
  have k: "encryptionKey ?rt = JString (js ''default-key'')" by (rule example_encryptionKey)
  have st: "\<And>env s0. storeData example_key (Some env) (storageType ?rt) ?rt s0
              = (Inl NoDatabaseAdapter, s0)"
    unfolding example_database
    by (simp add: storeData_def storeInDatabase_def storage_names_distinct example_runtime_def)
  have save: "saveAuthState example_platform example_iv example_key ?R ?s
        = (Inl NoDatabaseAdapter, ?s\<lparr>authCache := (authCache ?s)(example_key \<mapsto> ?R)\<rparr>)"
    by (rule saveAuthState_store_fails[OF r k default_key_length length_example_iv st])
  have "auth_state ?s example_key = None"
    by (simp add: example_initialized_def initialize_def console_log_def empty_world_def)
  then show ?thesis
    using refreshAuthState_save_Inl[OF r save] by (simp add: example_refreshed console_log_def)
qed

subsection \<open>The default of autoRefresh\<close>

text \<open>
  C7: an absent \<open>autoRefresh\<close> setting should count as \<open>true\<close>.  The code compares the
  setting with \<open>true\<close> and has no default: whenever the setting is anything else (absent
  in particular), loading an expired record, with or without a refresh token, returns
  absent, calls neither \<open>refreshAuthState\<close> nor \<open>saveAuthState\<close>, and only writes the line
  that the record has expired.
\<close>

theorem loadAuthState_no_refresh_without_setting:
  assumes "cachedValid now k s = None" "runtime s = Some rt"
    "retrieveData k (storageType rt) rt s = Inr (Some blob)" "blob \<noteq> []"
    "decryptWith pf blob (encryptionKey rt) = Inr d" "JSON_parse pf d = Some R"
    "\<not> isValid now R" "getSetting rt (js ''autoRefresh'') \<noteq> JBool True"
  shows "loadAuthState pf now iv k s = (Inr None, console_log (LogExpired k) s)"
  using assms by (simp add: loadAuthState_def)

text \<open>
  The expired record with its refresh token is saved and loaded by a runtime without the
  setting (the same states as for C4, where the setting is \<open>true\<close>).
\<close>

theorem loadAuthState_no_refresh_without_setting_witness:
  "loadAuthState example_platform 5000 example_iv example_key (example_saved JNull JNull False)
   = (Inr None, console_log (LogExpired example_key) (example_saved JNull JNull False))"
proof -
  let ?rt = "example_runtime JNull JNull False"
  obtain env where e: "cachedValid 5000 example_key (example_saved JNull JNull False) = None"
     "runtime (example_saved JNull JNull False) = Some ?rt"
     "retrieveData example_key (storageType ?rt) ?rt (example_saved JNull JNull False) = Inr (Some env)"
     "env \<noteq> []"
     "decryptWith example_platform env (encryptionKey ?rt) = Inr (example_stringify example_record)"
    using example_saved_load_facts[of JNull False] by blast
  have p: "JSON_parse example_platform (example_stringify example_record) = Some example_record"
    using example_json(1) by (simp add: example_platform_def)
  have a: "getSetting ?rt (js ''autoRefresh'') \<noteq> JBool True" by (simp add: example_autoRefresh)
  show ?thesis
    by (rule loadAuthState_no_refresh_without_setting[OF e p example_record_times(2) a])
qed

subsection \<open>Normalization of the key\<close>

text \<open>
  C8: every key should normalize to exactly 32 bytes, so that encryption never fails on
  the key.  The code pads and cuts the key to 32 code units, not bytes, and only then
  encodes it in UTF-8: the result has 32 bytes exactly when the first 32 code units of
  the key are ASCII (lemma \<open>normalizeKey_32_iff_ascii\<close>).  For every other key, whatever
  the text and the block transformation, \<open>encryptData\<close> fails with the error of a wrong
  key length.
\<close>

theorem encryptData_rejects_non_ascii_key:
  assumes "\<not> ascii (take 32 key)" "length iv = 16"
  shows "length (normalizeKey key) \<noteq> 32 \<and> encryptData E data key iv = Inl InvalidKeyLength"
  using assms by (simp add: encryptData_def normalizeKey_32_iff_ascii)

text \<open>The key that consists of the one character U+00E9 becomes 33 bytes.\<close>

theorem encryptData_rejects_non_ascii_key_witness:
  "length (normalizeKey [0xE9]) \<noteq> 32
   \<and> encryptData xor_cipher (js ''hello'') [0xE9] (replicate 16 0) = Inl InvalidKeyLength"
proof -
  have a: "\<not> ascii (take 32 [0xE9])" by (simp add: ascii_def)
  have l: "length (replicate 16 (0::byte)) = 16" by simp
  show ?thesis by (rule encryptData_rejects_non_ascii_key[OF a l])
qed

subsection \<open>Validity\<close>

text \<open>
  C9: for every record \<open>R\<close>, \<open>isValid\<close> is true exactly when the reading of the clock is
  strictly below \<open>R.expiresAt\<close> (an expiry that is not a number is never valid).  The
  function takes the clock reading and the record only: it reads and changes no state
  of the manager.
\<close>

theorem isValid_iff_now_before_expiry:
  "isValid now R = (case expiresAt R of Num e \<Rightarrow> now < e | NaN \<Rightarrow> False)"
  by (simp add: isValid_def split: jsnum.split)

subsection \<open>An expired cache entry and an empty backend\<close>

text \<open>
  C10: when the cache holds an expired record for \<open>k\<close> (with or without a refresh token)
  and the backend has nothing for \<open>k\<close>, \<open>loadAuthState\<close> returns absent and leaves the state
  as it was but for one line on the console: the cache entry stays, nothing is stored,
  and no refresh is attempted.
\<close>

theorem loadAuthState_expired_cache_backend_absent:
  assumes "authCache s k = Some c" "\<not> isValid now c" "runtime s = Some rt"
    "retrieveData k (storageType rt) rt s = Inr None"
  shows "loadAuthState pf now iv k s = (Inr None, s\<lparr>console := console s @ [LogNoneFound k]\<rparr>)"
  using assms by (simp add: loadAuthState_def cachedValid_def console_log_def)

theorem loadAuthState_expired_cache_backend_absent_witness:
  "loadAuthState example_platform 5000 example_iv example_key
     (example_saved (JString (js ''memory'')) (JBool True) False)
   = (Inr None,
      (example_saved (JString (js ''memory'')) (JBool True) False)
        \<lparr>console := console (example_saved (JString (js ''memory'')) (JBool True) False)
                      @ [LogNoneFound example_key]\<rparr>)"
proof -
  let ?rt = "example_runtime (JString (js ''memory'')) (JBool True) False"
  let ?s = "example_saved (JString (js ''memory'')) (JBool True) False"
  have c: "authCache ?s example_key = Some example_record"
    by (simp add: example_saved_memory console_log_def)
  have r: "runtime ?s = Some ?rt"
    by (simp add: example_saved_memory console_log_def example_initialized_runtime)
  have g: "retrieveData example_key (storageType ?rt) ?rt ?s = Inr None"
    by (simp add: example_memory retrieveData_def storage_names_distinct)
  show ?thesis
    by (rule loadAuthState_expired_cache_backend_absent[OF c example_record_times(2) r g])
qed

end
